theory Spec2Isabelle
  imports Complex_Main "HOL-Library.Word"
begin

section \<open>JavaScript values and strings\<close>

text \<open>
  Strings are lists of 8-bit code units. Values that come out of \<^verbatim>\<open>JSON.parse\<close>
  are modelled by \<open>jsval\<close>; \<open>JUndefined\<close> is the result of reading a property that is
  not there. An object is the association list of its own properties (the first binding
  of a key is the one that counts).
\<close>

datatype jsval =
    JUndefined
  | JNull
  | JBool bool
  | JNum rat
  | JStr string
  | JArr "jsval list"
  | JObj "(string \<times> jsval) list"

text \<open>A raised JavaScript \<^verbatim>\<open>Error\<close>; the only thing the code reads from it is its message.\<close>

datatype exn = Error (message: string)

text \<open>The truthiness test applied by \<^verbatim>\<open>!x\<close>, \<^verbatim>\<open>x && y\<close> and \<^verbatim>\<open>x || y\<close>.\<close>

fun truthy :: "jsval \<Rightarrow> bool" where
  "truthy JUndefined = False"
| "truthy JNull = False"
| "truthy (JBool b) = b"
| "truthy (JNum r) = (r \<noteq> 0)"
| "truthy (JStr s) = (s \<noteq> [])"
| "truthy (JArr xs) = True"
| "truthy (JObj kvs) = True"

text \<open>Decimal rendering of a natural number, as a template literal renders an integer.\<close>

definition digit_char :: "nat \<Rightarrow> char" where
  "digit_char d = char_of (48 + d)"

fun string_of_nat :: "nat \<Rightarrow> string" where
  "string_of_nat k = (if k < 10 then [digit_char k]
                      else string_of_nat (k div 10) @ [digit_char (k mod 10)])"

declare string_of_nat.simps [simp del]

definition string_of_int :: "int \<Rightarrow> string" where
  "string_of_int i = (if i < 0 then CHR ''-'' # string_of_nat (nat (- i)) else string_of_nat (nat i))"

text \<open>
  Reading property \<open>k\<close> of a value (\<^verbatim>\<open>v.k\<close>, \<^verbatim>\<open>v[0]\<close>). Reading from \<^verbatim>\<open>null\<close> or
  \<^verbatim>\<open>undefined\<close> raises a TypeError (the message is V8's). Arrays and strings have
  \<^verbatim>\<open>length\<close> and their indices; members inherited from the prototypes are not modelled,
  none of the keys read below (\<^verbatim>\<open>data\<close>, \<^verbatim>\<open>length\<close>, \<^verbatim>\<open>0\<close>, \<^verbatim>\<open>url\<close>, \<^verbatim>\<open>b64_json\<close>,
  \<^verbatim>\<open>error\<close>, \<^verbatim>\<open>message\<close>) is one.
\<close>

definition type_error :: "string \<Rightarrow> string \<Rightarrow> exn" where
  "type_error what k = Error (''Cannot read properties of '' @ what @ '' (reading '' @ [CHR 0x27] @ k @ [CHR 0x27] @ '')'')"

definition indexed :: "'a list \<Rightarrow> (string \<times> 'a) list" where
  "indexed xs = zip (map string_of_nat [0 ..< length xs]) xs"

definition own_property :: "(string \<times> jsval) list \<Rightarrow> string \<Rightarrow> jsval" where
  "own_property kvs k = (case map_of kvs k of Some v \<Rightarrow> v | None \<Rightarrow> JUndefined)"

fun js_get :: "jsval \<Rightarrow> string \<Rightarrow> exn + jsval" where
  "js_get JUndefined k = Inl (type_error ''undefined'' k)"
| "js_get JNull k = Inl (type_error ''null'' k)"
| "js_get (JBool b) k = Inr JUndefined"
| "js_get (JNum r) k = Inr JUndefined"
| "js_get (JStr s) k =
     Inr (if k = ''length'' then JNum (of_nat (length s))
          else case map_of (indexed s) k of Some c \<Rightarrow> JStr [c] | None \<Rightarrow> JUndefined)"
| "js_get (JArr xs) k =
     Inr (if k = ''length'' then JNum (of_nat (length xs))
          else case map_of (indexed xs) k of Some v \<Rightarrow> v | None \<Rightarrow> JUndefined)"
| "js_get (JObj kvs) k = Inr (own_property kvs k)"

text \<open>
  \<^verbatim>\<open>String.prototype.trim\<close>: strips white space and line terminators from both ends
  (those with a code unit below 256: TAB, LF, VT, FF, CR, SP, NBSP).
\<close>

definition is_js_space :: "char \<Rightarrow> bool" where
  "is_js_space c = (of_char c \<in> {9, 10, 11, 12, 13, 32, 160 :: nat})"

definition trim :: "string \<Rightarrow> string" where
  "trim s = rev (dropWhile is_js_space (rev (dropWhile is_js_space s)))"

section \<open>The image generation client\<close>

datatype image_size = S256x256 | S512x512 | S1024x1024 | S1024x1792 | S1792x1024

datatype image_quality = Standard | Hd

text \<open>\<^verbatim>\<open>ImageGenerationOptions\<close>: an optional field that is left out is \<open>None\<close>.\<close>

record image_generation_options =
  prompt :: string
  apiKey :: string
  baseUrl :: string
  model :: "string option"
  size_opt :: "image_size option"
  quality :: "image_quality option"
  n_opt :: "int option"

text \<open>\<^verbatim>\<open>ImageGenerationResult\<close>: a key that the returned object literal does not have is \<open>None\<close>.\<close>

record image_generation_result =
  success :: bool
  imageUrl :: "jsval option"
  imageData :: "jsval option"
  error :: "jsval option"

text \<open>The object handed to \<^verbatim>\<open>JSON.stringify\<close> for the request body.\<close>

record request_body =
  body_model :: string
  body_prompt :: string
  body_n :: int
  body_size :: image_size
  body_quality :: image_quality
  body_response_format :: string

record http_request =
  req_url :: string
  req_method :: string
  req_headers :: "(string \<times> string) list"
  req_body :: request_body

text \<open>
  What the code reads of a \<^verbatim>\<open>Response\<close>: \<^verbatim>\<open>ok\<close>, \<^verbatim>\<open>status\<close>, and \<^verbatim>\<open>json()\<close>, which
  rejects when the body is not JSON.
\<close>

record http_response =
  resp_ok :: bool
  resp_status :: nat
  resp_json :: "exn + jsval"

text \<open>
  The platform the client runs on: \<^verbatim>\<open>fetch\<close>, which rejects with an Error or resolves
  to a response, and the outcome of the comparison \<^verbatim>\<open>v > 0\<close> for a string or an array
  \<open>v\<close> (it goes through the engine's string-to-number conversion, which is left open).
\<close>

record platform =
  fetch :: "http_request \<Rightarrow> exn + http_response"
  coerced_gt0 :: "jsval \<Rightarrow> bool"

text \<open>The comparison \<^verbatim>\<open>v > 0\<close>.\<close>

fun js_gt0 :: "platform \<Rightarrow> jsval \<Rightarrow> bool" where
  "js_gt0 pf JUndefined = False"
| "js_gt0 pf JNull = False"
| "js_gt0 pf (JBool b) = b"
| "js_gt0 pf (JNum r) = (0 < r)"
| "js_gt0 pf (JStr s) = coerced_gt0 pf (JStr s)"
| "js_gt0 pf (JArr xs) = coerced_gt0 pf (JArr xs)"
| "js_gt0 pf (JObj kvs) = False"

text \<open>\<^verbatim>\<open>baseUrl.replace(/\/+$/, "")\<close>: the leftmost position from which only slashes
  (at least one) follow up to the end of the string is where the match starts; the match
  is replaced by the empty string.\<close>

fun cleanBaseUrl :: "string \<Rightarrow> string" where
  "cleanBaseUrl [] = []"
| "cleanBaseUrl (c # cs) =
     (if list_all (\<lambda>d. d = CHR ''/'') (c # cs) then [] else c # cleanBaseUrl cs)"

definition endpoint :: "string \<Rightarrow> string" where
  "endpoint b = cleanBaseUrl b @ ''/images/generations''"

text \<open>The destructuring with defaults at the head of \<^verbatim>\<open>generateImage\<close>.\<close>

definition model_of :: "image_generation_options \<Rightarrow> string" where
  "model_of opts = (case model opts of None \<Rightarrow> ''dall-e-3'' | Some m \<Rightarrow> m)"

definition size_of :: "image_generation_options \<Rightarrow> image_size" where
  "size_of opts = (case size_opt opts of None \<Rightarrow> S1024x1024 | Some s \<Rightarrow> s)"

definition quality_of :: "image_generation_options \<Rightarrow> image_quality" where
  "quality_of opts = (case quality opts of None \<Rightarrow> Standard | Some q \<Rightarrow> q)"

definition n_of :: "image_generation_options \<Rightarrow> int" where
  "n_of opts = (case n_opt opts of None \<Rightarrow> 1 | Some k \<Rightarrow> k)"

definition build_request :: "image_generation_options \<Rightarrow> http_request" where
  "build_request opts =
     \<lparr> req_url = endpoint (baseUrl opts),
       req_method = ''POST'',
       req_headers = [(''Content-Type'', ''application/json''),
                      (''Authorization'', ''Bearer '' @ apiKey opts)],
       req_body = \<lparr> body_model = model_of opts,
                    body_prompt = trim (prompt opts),
                    body_n = n_of opts,
                    body_size = size_of opts,
                    body_quality = quality_of opts,
                    body_response_format = ''url'' \<rparr> \<rparr>"

definition failure :: "jsval \<Rightarrow> image_generation_result" where
  "failure msg = \<lparr> success = False, imageUrl = None, imageData = None, error = Some msg \<rparr>"

definition url_result :: "jsval \<Rightarrow> image_generation_result" where
  "url_result u = \<lparr> success = True, imageUrl = Some u, imageData = None, error = None \<rparr>"

definition data_result :: "jsval \<Rightarrow> image_generation_result" where
  "data_result d = \<lparr> success = True, imageUrl = None, imageData = Some d, error = None \<rparr>"

text \<open>Sequencing of steps that may raise.\<close>

definition and_then :: "exn + 'a \<Rightarrow> ('a \<Rightarrow> exn + 'b) \<Rightarrow> exn + 'b" where
  "and_then r f = (case r of Inl e \<Rightarrow> Inl e | Inr x \<Rightarrow> f x)"

text \<open>The condition \<^verbatim>\<open>data.data && data.data.length > 0 && data.data[0].<key>\<close>; its value
  is the last operand evaluated.\<close>

definition first_item_field :: "platform \<Rightarrow> jsval \<Rightarrow> string \<Rightarrow> exn + jsval" where
  "first_item_field pf data key =
     and_then (js_get data ''data'') (\<lambda>d.
       if \<not> truthy d then Inr d
       else and_then (js_get d ''length'') (\<lambda>len.
         if \<not> js_gt0 pf len then Inr (JBool False)
         else and_then (js_get d ''0'') (\<lambda>item. js_get item key)))"

text \<open>The branch for a response that is not \<^verbatim>\<open>ok\<close>.\<close>

definition error_of_response :: "http_response \<Rightarrow> exn + image_generation_result" where
  "error_of_response resp =
     (let errorData = (case resp_json resp of Inl e \<Rightarrow> JObj [] | Inr v \<Rightarrow> v) in
      and_then (js_get errorData ''error'') (\<lambda>err.
        and_then (if err = JNull \<or> err = JUndefined then Inr JUndefined else js_get err ''message'')
          (\<lambda>m. Inr (failure (if truthy m then m
                   else JStr (''API request failed with status '' @ string_of_nat (resp_status resp)))))))"

text \<open>The branch for an \<^verbatim>\<open>ok\<close> response.\<close>

definition result_of_body :: "platform \<Rightarrow> jsval \<Rightarrow> exn + image_generation_result" where
  "result_of_body pf data =
     and_then (first_item_field pf data ''url'') (\<lambda>u.
       if truthy u then Inr (url_result u)
       else and_then (first_item_field pf data ''b64_json'') (\<lambda>b.
         if truthy b then Inr (data_result b)
         else Inr (failure (JStr ''No image data in response''))))"

text \<open>
  The body of the \<^verbatim>\<open>try\<close> block: the requests handed to \<^verbatim>\<open>fetch\<close>, in order, and
  either the value returned or the exception raised.
\<close>

definition try_block :: "platform \<Rightarrow> image_generation_options \<Rightarrow> http_request list \<times> (exn + image_generation_result)" where
  "try_block pf opts =
     (if prompt opts = [] \<or> trim (prompt opts) = [] then
        ([], Inr (failure (JStr ''Image prompt is required'')))
      else if apiKey opts = [] \<or> trim (apiKey opts) = [] then
        ([], Inr (failure (JStr ''API key is required'')))
      else if baseUrl opts = [] \<or> trim (baseUrl opts) = [] then
        ([], Inr (failure (JStr ''API base URL is required'')))
      else
        ([build_request opts],
         and_then (fetch pf (build_request opts)) (\<lambda>response.
           if \<not> resp_ok response then error_of_response response
           else and_then (resp_json response) (result_of_body pf))))"

text \<open>The \<^verbatim>\<open>catch\<close> clause.\<close>

definition catch_clause :: "exn \<Rightarrow> image_generation_result" where
  "catch_clause e = failure (JStr (if message e \<noteq> [] then message e else ''Failed to generate image''))"

definition generateImage :: "platform \<Rightarrow> image_generation_options \<Rightarrow> http_request list \<times> (exn + image_generation_result)" where
  "generateImage pf opts =
     (case try_block pf opts of
        (calls, Inl e) \<Rightarrow> (calls, Inr (catch_clause e))
      | (calls, Inr r) \<Rightarrow> (calls, Inr r))"

text \<open>A platform whose \<^verbatim>\<open>fetch\<close> resolves to one given response, for concrete evaluations.\<close>

definition respond_with :: "http_response \<Rightarrow> platform" where
  "respond_with resp = \<lparr> fetch = (\<lambda>request. Inr resp), coerced_gt0 = (\<lambda>v. False) \<rparr>"

definition ok_json :: "jsval \<Rightarrow> http_response" where
  "ok_json body = \<lparr> resp_ok = True, resp_status = 200, resp_json = Inr body \<rparr>"

definition sample_options :: image_generation_options where
  "sample_options = \<lparr> prompt = ''a cat'', apiKey = ''key'', baseUrl = ''https://api.example/v1/'',
                       model = None, size_opt = None, quality = None, n_opt = None \<rparr>"

subsection \<open>The outcome of a successful response, in the words of the specification\<close>

text \<open>
  The specification decides the outcome from the whole body: a result item with a hosted
  URL field anywhere among the items gives \<^verbatim>\<open>imageUrl\<close>, otherwise an item with an inline
  field gives \<^verbatim>\<open>imageData\<close>, otherwise the failure. \<open>spec_outcome\<close> follows those words
  and is what \<open>result_of_body\<close> is compared with.
\<close>

definition items_of :: "jsval \<Rightarrow> jsval list" where
  "items_of body =
     (case body of
        JObj kvs \<Rightarrow> (case map_of kvs ''data'' of Some (JArr xs) \<Rightarrow> xs | _ \<Rightarrow> [])
      | _ \<Rightarrow> [])"

definition field_of :: "string \<Rightarrow> jsval \<Rightarrow> jsval option" where
  "field_of k item =
     (case item of
        JObj ivs \<Rightarrow> (case map_of ivs k of Some v \<Rightarrow> (if truthy v then Some v else None) | None \<Rightarrow> None)
      | _ \<Rightarrow> None)"

definition spec_outcome :: "jsval \<Rightarrow> image_generation_result" where
  "spec_outcome body =
     (case List.map_filter (field_of ''url'') (items_of body) of
        u # _ \<Rightarrow> url_result u
      | [] \<Rightarrow> (case List.map_filter (field_of ''b64_json'') (items_of body) of
                 b # _ \<Rightarrow> data_result b
               | [] \<Rightarrow> failure (JStr ''No image data in response'')))"

section \<open>The stores\<close>

text \<open>A \<^verbatim>\<open>File\<close>: its bytes, its name and its content type.\<close>

record js_file =
  file_bytes :: "8 word list"
  file_name :: string
  file_type :: string

record character_record =
  rec_id :: string
  rec_data :: jsval
  rec_avatar :: string

text \<open>
  The persisted state: the character records in insertion order and the blobs by key.
  The two flags say whether the underlying store accepts a write (an I/O failure of the
  store is a write that is refused).
\<close>

record world =
  records :: "character_record list"
  blobs :: "string \<rightharpoonup> js_file"
  records_io_ok :: bool
  blobs_io_ok :: bool

text \<open>
  Modelled from the spec: \<^verbatim>\<open>LocalCharacterRecordOperations.createCharacter\<close> of
  \<^verbatim>\<open>@/lib/data/roleplay/character-record-operation\<close> is not among the sources. By the
  specification it fails with a ValidationError if the raw data does not carry the nested
  structure with \<^verbatim>\<open>name\<close> and \<^verbatim>\<open>personality\<close>, fails if the id already exists or the
  store cannot be written, and otherwise appends the record with the avatar key it was
  given; it touches no blob.
\<close>

definition carries_required :: "jsval \<Rightarrow> bool" where
  "carries_required raw =
     (case js_get raw ''data'' of
        Inr (JObj d) \<Rightarrow> (case (map_of d ''name'', map_of d ''personality'') of
                          (Some (JStr a), Some (JStr b)) \<Rightarrow> True
                        | _ \<Rightarrow> False)
      | _ \<Rightarrow> False)"

definition createCharacter :: "world \<Rightarrow> string \<Rightarrow> jsval \<Rightarrow> string \<Rightarrow> exn + world" where
  "createCharacter w cid raw avatarKey =
     (if \<not> carries_required raw then Inl (Error ''ValidationError: name and personality are required'')
      else if cid \<in> set (map rec_id (records w)) then Inl (Error ''StorageError: id already exists'')
      else if \<not> records_io_ok w then Inl (Error ''StorageError: record store write failed'')
      else Inr (w\<lparr> records := records w @ [\<lparr> rec_id = cid, rec_data = raw, rec_avatar = avatarKey \<rparr>] \<rparr>))"

text \<open>Modelled from the spec: \<^verbatim>\<open>get(id)\<close> of the Character Record Store, also absent.\<close>

definition getCharacter :: "world \<Rightarrow> string \<Rightarrow> character_record option" where
  "getCharacter w cid = find (\<lambda>r. rec_id r = cid) (records w)"

text \<open>
  Modelled from the spec: \<^verbatim>\<open>setBlob\<close> of \<^verbatim>\<open>@/lib/data/local-storage\<close> is not among the
  sources. By the specification \<^verbatim>\<open>put\<close> writes the bytes under the key and silently
  overwrites an earlier entry; it fails only when the store cannot be written.
\<close>

definition setBlob :: "world \<Rightarrow> string \<Rightarrow> js_file \<Rightarrow> exn + world" where
  "setBlob w key f =
     (if \<not> blobs_io_ok w then Inl (Error ''StorageError: blob store write failed'')
      else Inr (w\<lparr> blobs := (blobs w)(key \<mapsto> f) \<rparr>))"

section \<open>The character creation workflow\<close>

text \<open>The component state that \<^verbatim>\<open>handleSubmit\<close> of \<^verbatim>\<open>CreateCharacterModal\<close> reads.\<close>

record form =
  name :: string
  personality :: string
  scenario :: string
  firstMessage :: string
  creatorComment :: string
  description :: string
  avatarFile :: "js_file option"

datatype toast_type = ToastSuccess | ToastError | ToastWarning

text \<open>
  What \<^verbatim>\<open>handleSubmit\<close> does to its surroundings, in the order it does it. The dynamic
  \<^verbatim>\<open>import\<close>s of the two store modules are taken to succeed.
\<close>

datatype effect =
    PreventDefault
  | ShowToast string toast_type
  | SetIsLoading bool
  | TrackButtonClick string string
  | DateNow
  | CreateCharacter string jsval string
  | SetBlob string js_file
  | ConsoleError string
  | SetTimeout nat

definition characterId :: "int \<Rightarrow> string" where
  "characterId now = ''char_'' @ string_of_int now"

definition imagePath :: "int \<Rightarrow> form \<Rightarrow> string" where
  "imagePath now fm = (case avatarFile fm of Some f \<Rightarrow> characterId now @ ''.png'' | None \<Rightarrow> ''default-avatar.png'')"

definition rawCharacterData :: "form \<Rightarrow> jsval" where
  "rawCharacterData fm =
     JObj [ (''spec'', JStr ''chara_card_v2''),
            (''spec_version'', JStr ''2.0''),
            (''data'', JObj [
               (''name'', JStr (trim (name fm))),
               (''description'', JStr (trim (description fm))),
               (''personality'', JStr (trim (personality fm))),
               (''scenario'', JStr (trim (scenario fm))),
               (''first_mes'', JStr (if trim (firstMessage fm) \<noteq> [] then trim (firstMessage fm)
                                     else ''Hello, I'' @ [CHR 0x27] @ ''m '' @ trim (name fm) @ ''.'')),
               (''mes_example'', JStr []),
               (''creator_notes'', JStr (trim (creatorComment fm))),
               (''system_prompt'', JStr []),
               (''post_history_instructions'', JStr []),
               (''alternate_greetings'', JArr []),
               (''character_book'', JNull),
               (''tags'', JArr []),
               (''creator'', JStr []),
               (''character_version'', JStr ''1.0''),
               (''extensions'', JObj []) ]),
            (''creatorcomment'', JStr (trim (creatorComment fm))) ]"

text \<open>The \<^verbatim>\<open>catch\<close> and \<^verbatim>\<open>finally\<close> clauses of \<^verbatim>\<open>handleSubmit\<close>.\<close>

definition on_error :: "exn \<Rightarrow> world \<Rightarrow> (effect \<times> world) list" where
  "on_error e w =
     [ (ConsoleError ''Failed to create character:'', w),
       (ShowToast (if message e \<noteq> [] then message e else ''Failed to create character'') ToastError, w),
       (SetIsLoading False, w) ]"

definition on_success :: "world \<Rightarrow> (effect \<times> world) list" where
  "on_success w =
     [ (ShowToast ''Character created successfully!'' ToastSuccess, w),
       (SetTimeout 1000, w),
       (SetIsLoading False, w) ]"

text \<open>
  \<^verbatim>\<open>handleSubmit\<close>, run in world \<open>w\<close> with \<^verbatim>\<open>Date.now()\<close> returning \<open>now\<close>: the effects in
  order, each with the world as it is once the effect has completed.
\<close>

definition handleSubmit :: "int \<Rightarrow> world \<Rightarrow> form \<Rightarrow> (effect \<times> world) list" where
  "handleSubmit now w fm =
     (if trim (name fm) = [] then
        [(PreventDefault, w), (ShowToast ''Character name is required'' ToastError, w)]
      else if trim (personality fm) = [] then
        [(PreventDefault, w), (ShowToast ''Character personality is required'' ToastError, w)]
      else
        [ (PreventDefault, w), (SetIsLoading True, w),
          (TrackButtonClick ''create_character_submit'' ''Submit Create Character'', w),
          (DateNow, w) ] @
        (case createCharacter w (characterId now) (rawCharacterData fm) (imagePath now fm) of
           Inl e \<Rightarrow>
             (CreateCharacter (characterId now) (rawCharacterData fm) (imagePath now fm), w) # on_error e w
         | Inr w1 \<Rightarrow>
             (CreateCharacter (characterId now) (rawCharacterData fm) (imagePath now fm), w1) #
             (case avatarFile fm of
                None \<Rightarrow> on_success w1
              | Some f \<Rightarrow>
                  (case setBlob w1 (imagePath now fm) f of
                     Inl e \<Rightarrow> (SetBlob (imagePath now fm) f, w1) # on_error e w1
                   | Inr w2 \<Rightarrow> (SetBlob (imagePath now fm) f, w2) # on_success w2))))"

definition final_world :: "world \<Rightarrow> (effect \<times> world) list \<Rightarrow> world" where
  "final_world w steps = (if steps = [] then w else snd (last steps))"

text \<open>A record is dangling when its avatar key is not the default avatar and names no blob.\<close>

definition dangling :: "world \<Rightarrow> bool" where
  "dangling w =
     list_ex (\<lambda>r. rec_avatar r \<noteq> ''default-avatar.png'' \<and> blobs w (rec_avatar r) = None) (records w)"

definition is_blob_write :: "effect \<times> world \<Rightarrow> bool" where
  "is_blob_write s = (case fst s of SetBlob key f \<Rightarrow> True | _ \<Rightarrow> False)"

definition is_record_write :: "effect \<times> world \<Rightarrow> bool" where
  "is_record_write s = (case fst s of CreateCharacter cid raw key \<Rightarrow> True | _ \<Rightarrow> False)"

definition before_blob_write :: "(effect \<times> world) list \<Rightarrow> (effect \<times> world) list" where
  "before_blob_write steps = takeWhile (\<lambda>s. \<not> is_blob_write s) steps"

text \<open>Reading \<^verbatim>\<open>data.character_book\<close> and \<^verbatim>\<open>data.character_book.entries\<close> of a payload.\<close>

definition character_book_of :: "jsval \<Rightarrow> exn + jsval" where
  "character_book_of raw = and_then (js_get raw ''data'') (\<lambda>d. js_get d ''character_book'')"

definition entries_of :: "jsval \<Rightarrow> exn + jsval" where
  "entries_of raw = and_then (character_book_of raw) (\<lambda>book. js_get book ''entries'')"

text \<open>Two invocations back to back: the second runs in the world the first one left.\<close>

definition after_submit :: "int \<Rightarrow> world \<Rightarrow> form \<Rightarrow> world" where
  "after_submit now w fm = final_world w (handleSubmit now w fm)"

definition two_submits :: "int \<Rightarrow> form \<Rightarrow> int \<Rightarrow> form \<Rightarrow> world \<Rightarrow> world" where
  "two_submits t1 f1 t2 f2 w = after_submit t2 (after_submit t1 w f1) f2"

text \<open>Sample inputs for concrete evaluations.\<close>

definition empty_world :: world where
  "empty_world = \<lparr> records = [], blobs = Map.empty, records_io_ok = True, blobs_io_ok = True \<rparr>"

definition sample_file :: js_file where
  "sample_file = \<lparr> file_bytes = [137, 80, 78, 71], file_name = ''avatar.png'', file_type = ''image/png'' \<rparr>"

definition sample_form :: form where
  "sample_form = \<lparr> name = ''Alice'', personality = ''curious'', scenario = [], firstMessage = [],
                    creatorComment = [], description = [], avatarFile = Some sample_file \<rparr>"

section \<open>The media conversion adapter for inline data\<close>

text \<open>The base64 alphabet of RFC 4648.\<close>

definition alphabet :: string where
  "alphabet = ''ABCDEFGHIJKLMNOPQRSTUVWXYZabcdefghijklmnopqrstuvwxyz0123456789+/''"

fun index_of :: "'a \<Rightarrow> 'a list \<Rightarrow> nat option" where
  "index_of c [] = None"
| "index_of c (x # xs) = (if x = c then Some 0 else map_option Suc (index_of c xs))"

subsection \<open>\<^verbatim>\<open>atob\<close>\<close>

text \<open>
  \<^verbatim>\<open>atob\<close> is the platform's forgiving-base64 decoder (WHATWG Infra): it removes ASCII
  white space; if the length is then a multiple of four it removes one or two trailing
  \<^verbatim>\<open>=\<close>; it fails if the length leaves remainder one or if a character is outside the
  alphabet; otherwise it appends six bits per character to a buffer, emits three bytes
  whenever the buffer holds 24 bits, and at the end emits one byte from 12 bits (the
  last four dropped) or two bytes from 18 bits (the last two dropped). The result is a
  string with one character per byte.
\<close>

definition is_ascii_whitespace :: "char \<Rightarrow> bool" where
  "is_ascii_whitespace c = (of_char c \<in> {9, 10, 12, 13, 32 :: nat})"

definition remove_padding :: "string \<Rightarrow> string" where
  "remove_padding d =
     (if length d mod 4 = 0 then
        (if 2 \<le> length d \<and> drop (length d - 2) d = ''=='' then take (length d - 2) d
         else if 1 \<le> length d \<and> drop (length d - 1) d = ''='' then take (length d - 1) d
         else d)
      else d)"

definition sextet_value :: "char \<Rightarrow> nat" where
  "sextet_value c = (case index_of c alphabet of Some v \<Rightarrow> v | None \<Rightarrow> 0)"

fun decode_sextets :: "nat list \<Rightarrow> string" where
  "decode_sextets (s0 # s1 # s2 # s3 # rest) =
     (let buffer = ((s0 * 64 + s1) * 64 + s2) * 64 + s3 in
        [char_of (buffer div 65536), char_of (buffer div 256 mod 256), char_of (buffer mod 256)]
          @ decode_sextets rest)"
| "decode_sextets [s0, s1, s2] =
     (let buffer = ((s0 * 64 + s1) * 64 + s2) div 4 in
        [char_of (buffer div 256), char_of (buffer mod 256)])"
| "decode_sextets [s0, s1] =
     (let buffer = (s0 * 64 + s1) div 16 in [char_of buffer])"
| "decode_sextets [s0] = []"
| "decode_sextets [] = []"

definition atob :: "string \<Rightarrow> exn + string" where
  "atob data =
     (let d = remove_padding (filter (\<lambda>c. \<not> is_ascii_whitespace c) data) in
      if length d mod 4 = 1 then Inl (Error ''The string to be decoded is not correctly encoded.'')
      else if \<not> list_all (\<lambda>c. c \<in> set alphabet) d
        then Inl (Error ''The string to be decoded is not correctly encoded.'')
      else Inr (decode_sextets (map sextet_value d)))"

subsection \<open>\<^verbatim>\<open>base64ToFile\<close>\<close>

text \<open>
  \<^verbatim>\<open>base64Data.replace(/^data:image\/\w+;base64,/, "")\<close>. The match is anchored at the
  start. \<^verbatim>\<open>\w+\<close> is greedy and \<^verbatim>\<open>;\<close> is not a word character, so the only way to match is
  for \<^verbatim>\<open>\w+\<close> to take the whole run of word characters and for \<^verbatim>\<open>;base64,\<close> to follow it.
\<close>

definition is_word_char :: "char \<Rightarrow> bool" where
  "is_word_char c =
     (c \<in> set ''ABCDEFGHIJKLMNOPQRSTUVWXYZabcdefghijklmnopqrstuvwxyz0123456789_'')"

definition strip_prefix :: "string \<Rightarrow> string \<Rightarrow> string option" where
  "strip_prefix p s = (if take (length p) s = p then Some (drop (length p) s) else None)"

definition remove_data_url_prefix :: "string \<Rightarrow> string" where
  "remove_data_url_prefix s =
     (case strip_prefix ''data:image/'' s of
        None \<Rightarrow> s
      | Some r \<Rightarrow>
          (if takeWhile is_word_char r = [] then s
           else case strip_prefix '';base64,'' (dropWhile is_word_char r) of
                  None \<Rightarrow> s
                | Some rest \<Rightarrow> rest))"

text \<open>The loop \<^verbatim>\<open>for (let i = 0; i < binaryString.length; i++) bytes[i] = binaryString.charCodeAt(i)\<close>.\<close>

function fill_bytes :: "nat \<Rightarrow> string \<Rightarrow> 8 word list \<Rightarrow> 8 word list" where
  "fill_bytes i binaryString bytes =
     (if i < length binaryString
      then fill_bytes (i + 1) binaryString (bytes[i := of_nat (of_char (binaryString ! i))])
      else bytes)"
  by pat_completeness auto
termination
  by (relation "measure (\<lambda>(i, binaryString, bytes). length binaryString - i)") auto

declare fill_bytes.simps [simp del]

definition base64ToFile :: "string \<Rightarrow> string option \<Rightarrow> exn + js_file" where
  "base64ToFile base64Data filename =
     (let base64String = remove_data_url_prefix base64Data in
      case atob base64String of
        Inl e \<Rightarrow> Inl e
      | Inr binaryString \<Rightarrow>
          Inr \<lparr> file_bytes = fill_bytes 0 binaryString (replicate (length binaryString) 0),
                file_name = (case filename of None \<Rightarrow> ''generated-image.png'' | Some f \<Rightarrow> f),
                file_type = ''image/png'' \<rparr>)"

subsection \<open>The reference encoder\<close>

text \<open>
  Base64 encoding as RFC 4648 defines it: three bytes form a 24-bit group that is cut
  into four 6-bit values; a final group of two bytes gets two zero bits and one \<^verbatim>\<open>=\<close>,
  a final group of one byte gets four zero bits and two \<^verbatim>\<open>=\<close>. It is the encoder the
  round trip of \<open>base64ToFile\<close> is stated against.
\<close>

fun reference_encode :: "8 word list \<Rightarrow> string" where
  "reference_encode (a # b # c # rest) =
     (let n = (unat a * 256 + unat b) * 256 + unat c in
        [alphabet ! (n div 262144), alphabet ! (n div 4096 mod 64),
         alphabet ! (n div 64 mod 64), alphabet ! (n mod 64)] @ reference_encode rest)"
| "reference_encode [a, b] =
     (let n = (unat a * 256 + unat b) * 4 in
        [alphabet ! (n div 4096), alphabet ! (n div 64 mod 64), alphabet ! (n mod 64), CHR ''=''])"
| "reference_encode [a] =
     (let n = unat a * 16 in [alphabet ! (n div 64), alphabet ! (n mod 64), CHR ''='', CHR ''=''])"
| "reference_encode [] = []"

text \<open>The 6-bit values and the padding that \<open>reference_encode\<close> produces, separately.\<close>

fun sextets_of :: "8 word list \<Rightarrow> nat list" where
  "sextets_of (a # b # c # rest) =
     (let n = (unat a * 256 + unat b) * 256 + unat c in
        [n div 262144, n div 4096 mod 64, n div 64 mod 64, n mod 64] @ sextets_of rest)"
| "sextets_of [a, b] =
     (let n = (unat a * 256 + unat b) * 4 in [n div 4096, n div 64 mod 64, n mod 64])"
| "sextets_of [a] = (let n = unat a * 16 in [n div 64, n mod 64])"
| "sextets_of [] = []"

fun padding_of :: "8 word list \<Rightarrow> string" where
  "padding_of (a # b # c # rest) = padding_of rest"
| "padding_of [a, b] = ''=''"
| "padding_of [a] = ''==''"
| "padding_of [] = []"

section \<open>Properties of the decimal rendering\<close>

lemma digit_char_code: "d < 10 \<Longrightarrow> of_char (digit_char d) = 48 + d"
  by (simp add: digit_char_def)

lemma digit_char_inj:
  assumes "a < 10" "b < 10" "digit_char a = digit_char b"
  shows "a = b"
proof -
  have "(of_char (digit_char a) :: nat) = of_char (digit_char b)"
    by (simp only: assms(3))
  then have "48 + a = 48 + b"
    by (simp only: digit_char_code [OF assms(1)] digit_char_code [OF assms(2)])
  then show ?thesis by simp
qed

lemma digit_char_not_minus:
  assumes "d < 10"
  shows "digit_char d \<noteq> CHR ''-''"
proof
  assume "digit_char d = CHR ''-''"
  then have "(of_char (digit_char d) :: nat) = of_char (CHR ''-'')"
    by (simp only:)
  then have "48 + d = (45 :: nat)"
    by (simp add: digit_char_code [OF assms])
  then show False by simp
qed

lemma string_of_nat_small: "k < 10 \<Longrightarrow> string_of_nat k = [digit_char k]"
  by (subst string_of_nat.simps) simp

lemma string_of_nat_large:
  "\<not> k < 10 \<Longrightarrow> string_of_nat k = string_of_nat (k div 10) @ [digit_char (k mod 10)]"
  by (subst string_of_nat.simps) simp

lemma string_of_nat_nonempty: "string_of_nat k \<noteq> []"
  by (cases "k < 10") (simp_all add: string_of_nat_small string_of_nat_large)

lemma string_of_nat_hd: "hd (string_of_nat k) \<noteq> CHR ''-''"
proof (induction k rule: string_of_nat.induct)
  case (1 k)
  show ?case
  proof (cases "k < 10")
    case True
    then show ?thesis by (simp add: string_of_nat_small digit_char_not_minus)
  next
    case False
    with 1 show ?thesis
      by (simp add: string_of_nat_large string_of_nat_nonempty)
  qed
qed

lemma string_of_nat_inj: "string_of_nat a = string_of_nat b \<Longrightarrow> a = b"
proof (induction a arbitrary: b rule: string_of_nat.induct)
  case (1 a)
  show ?case
  proof (cases "a < 10")
    case a: True
    show ?thesis
    proof (cases "b < 10")
      case True
      with a "1.prems" show ?thesis
        by (simp add: string_of_nat_small digit_char_inj)
    next
      case False
      with a "1.prems" show ?thesis
        by (simp add: string_of_nat_small string_of_nat_large string_of_nat_nonempty string_of_nat_nonempty [THEN not_sym])
    qed
  next
    case a: False
    show ?thesis
    proof (cases "b < 10")
      case True
      with a "1.prems" show ?thesis
        by (simp add: string_of_nat_small string_of_nat_large string_of_nat_nonempty string_of_nat_nonempty [THEN not_sym])
    next
      case False
      with a "1.prems" have e: "string_of_nat (a div 10) = string_of_nat (b div 10)"
        and d: "digit_char (a mod 10) = digit_char (b mod 10)"
        by (simp_all add: string_of_nat_large)
      from "1.IH" [OF a e] have "a div 10 = b div 10" .
      moreover from d have "a mod 10 = b mod 10"
        by (intro digit_char_inj) simp_all
      ultimately show ?thesis
        by (metis div_mult_mod_eq)
    qed
  qed
qed

lemma string_of_int_inj: "string_of_int i = string_of_int j \<Longrightarrow> i = j"
proof -
  assume e: "string_of_int i = string_of_int j"
  have neg: "hd (string_of_int k) = CHR ''-'' \<longleftrightarrow> k < 0" for k
    using string_of_nat_hd [of "nat k"] by (simp add: string_of_int_def)
  from e neg [of i] neg [of j] have s: "i < 0 \<longleftrightarrow> j < 0" by simp
  show "i = j"
  proof (cases "i < 0")
    case True
    with s e have "string_of_nat (nat (- i)) = string_of_nat (nat (- j))"
      by (simp add: string_of_int_def)
    then have "nat (- i) = nat (- j)" by (rule string_of_nat_inj)
    with True s show ?thesis by simp
  next
    case False
    with s e have "string_of_nat (nat i) = string_of_nat (nat j)"
      by (simp add: string_of_int_def)
    then have "nat i = nat j" by (rule string_of_nat_inj)
    with False s show ?thesis by simp
  qed
qed

lemma characterId_inj: "characterId a = characterId b \<Longrightarrow> a = b"
proof -
  assume "characterId a = characterId b"
  then have "string_of_int a = string_of_int b"
    by (simp add: characterId_def)
  then show "a = b" by (rule string_of_int_inj)
qed

section \<open>Properties of the image generation client\<close>

lemma trim_Nil: "trim [] = []"
  by (simp add: trim_def)

lemma generateImage_snd:
  "snd (generateImage pf opts) =
     Inr (case snd (try_block pf opts) of Inl e \<Rightarrow> catch_clause e | Inr r \<Rightarrow> r)"
  by (cases "try_block pf opts" rule: prod.exhaust; cases "snd (try_block pf opts)";
      simp add: generateImage_def)

lemma error_of_response_shape:
  "error_of_response resp = Inr r \<Longrightarrow> \<exists>m. r = failure m"
  unfolding error_of_response_def and_then_def Let_def
  by (auto split: sum.splits if_splits)

lemma result_of_body_shape:
  "result_of_body pf d = Inr r \<Longrightarrow>
     (\<exists>u. truthy u \<and> r = url_result u) \<or> (\<exists>b. truthy b \<and> r = data_result b)
       \<or> r = failure (JStr ''No image data in response'')"
  unfolding result_of_body_def and_then_def
  by (auto split: sum.splits if_splits)

lemma try_block_shape:
  "snd (try_block pf opts) = Inr r \<Longrightarrow>
     (\<exists>u. r = url_result u) \<or> (\<exists>b. r = data_result b) \<or> (\<exists>m. r = failure m)"
  unfolding try_block_def and_then_def
  by (auto split: if_splits sum.splits dest: error_of_response_shape result_of_body_shape)


lemma generateImage_fetch_rejects:
  assumes "trim (prompt opts) \<noteq> []" "trim (apiKey opts) \<noteq> []" "trim (baseUrl opts) \<noteq> []"
    and "fetch pf (build_request opts) = Inl e"
  shows "snd (try_block pf opts) = Inl e"
    and "snd (generateImage pf opts) = Inr (catch_clause e)"
proof -
  from assms(1-3) have "prompt opts \<noteq> []" "apiKey opts \<noteq> []" "baseUrl opts \<noteq> []"
    by (auto simp: trim_Nil)
  with assms show "snd (try_block pf opts) = Inl e"
    unfolding try_block_def by (simp add: and_then_def)
  then show "snd (generateImage pf opts) = Inr (catch_clause e)"
    by (simp add: generateImage_snd)
qed

lemma try_block_missing:
  assumes "trim (prompt opts) = [] \<or> trim (apiKey opts) = [] \<or> trim (baseUrl opts) = []"
  shows "try_block pf opts =
           ([], Inr (failure (JStr (if trim (prompt opts) = [] then ''Image prompt is required''
                                    else if trim (apiKey opts) = [] then ''API key is required''
                                    else ''API base URL is required''))))"
  using assms unfolding try_block_def by (auto simp: trim_Nil)

text \<open>
  C3. When the prompt, the API key or the base URL is empty or consists of white space
  only, \<open>generateImage\<close> returns the failure \<^verbatim>\<open>"<field> is required"\<close> for the first
  such field (prompt, then key, then URL) and hands no request to \<^verbatim>\<open>fetch\<close>.
\<close>

theorem generateImage_missing_field:
  assumes "trim (prompt opts) = [] \<or> trim (apiKey opts) = [] \<or> trim (baseUrl opts) = []"
  shows "generateImage pf opts =
           ([], Inr (failure (JStr (if trim (prompt opts) = [] then ''Image prompt is required''
                                    else if trim (apiKey opts) = [] then ''API key is required''
                                    else ''API base URL is required''))))"
  unfolding generateImage_def try_block_missing [OF assms] by (simp only: prod.case sum.case)

theorem generateImage_missing_field_witness:
  "trim (apiKey \<lparr> prompt = ''a cat'', apiKey = '' '', baseUrl = ''https://api.example/v1'',
                   model = None, size_opt = None, quality = None, n_opt = None \<rparr>) = []
   \<and> generateImage \<lparr> fetch = (\<lambda>r. Inl (Error ''offline'')), coerced_gt0 = (\<lambda>v. False) \<rparr>
        \<lparr> prompt = ''a cat'', apiKey = '' '', baseUrl = ''https://api.example/v1'',
          model = None, size_opt = None, quality = None, n_opt = None \<rparr>
       = ([], Inr \<lparr> success = False, imageUrl = None, imageData = None,
                     error = Some (JStr ''API key is required'') \<rparr>)"
proof -
  let ?o = "\<lparr> prompt = ''a cat'', apiKey = '' '', baseUrl = ''https://api.example/v1'',
              model = None, size_opt = None, quality = None, n_opt = None \<rparr>"
  let ?pf = "\<lparr> fetch = (\<lambda>r. Inl (Error ''offline'')), coerced_gt0 = (\<lambda>v. False) \<rparr>"
  have k: "trim (apiKey ?o) = []"
    by (simp add: trim_def is_js_space_def)
  have p: "trim (prompt ?o) \<noteq> []"
    by (simp add: trim_def is_js_space_def)
  from k have h: "trim (prompt ?o) = [] \<or> trim (apiKey ?o) = [] \<or> trim (baseUrl ?o) = []"
    by (simp only: simp_thms)
  show ?thesis
    using generateImage_missing_field [OF h, of ?pf] k p by (simp add: failure_def)
qed

lemma all_slashes_append:
  "list_all (\<lambda>d. d = CHR ''/'') (b @ replicate k (CHR ''/'')) = list_all (\<lambda>d. d = CHR ''/'') b"
  by (induction b) (simp_all add: list_all_iff)

lemma cleanBaseUrl_slashes: "cleanBaseUrl (replicate k (CHR ''/'')) = []"
  by (cases k) (simp_all add: list_all_iff)

lemma cleanBaseUrl_append_slashes:
  "cleanBaseUrl (b @ replicate k (CHR ''/'')) = cleanBaseUrl b"
proof (induction b)
  case Nil
  show ?case by (simp add: cleanBaseUrl_slashes)
next
  case (Cons c cs)
  have "cleanBaseUrl ((c # cs) @ replicate k (CHR ''/'')) =
          (if list_all (\<lambda>d. d = CHR ''/'') ((c # cs) @ replicate k (CHR ''/'')) then []
           else c # cleanBaseUrl (cs @ replicate k (CHR ''/'')))"
    by (simp only: append_Cons cleanBaseUrl.simps)
  also have "\<dots> = (if list_all (\<lambda>d. d = CHR ''/'') (c # cs) then [] else c # cleanBaseUrl cs)"
    by (simp only: all_slashes_append Cons.IH)
  also have "\<dots> = cleanBaseUrl (c # cs)"
    by (simp only: cleanBaseUrl.simps)
  finally show ?case .
qed

text \<open>
  C7. Base URLs that differ only in how many slashes end them give the same endpoint:
  appending any number of slashes to a base URL changes neither the endpoint string nor
  the URL of the request built from the options.
\<close>

theorem endpoint_trailing_slashes:
  "endpoint (b @ replicate i (CHR ''/'')) = endpoint (b @ replicate j (CHR ''/''))
   \<and> req_url (build_request (opts\<lparr>baseUrl := b @ replicate i (CHR ''/'')\<rparr>))
       = req_url (build_request (opts\<lparr>baseUrl := b @ replicate j (CHR ''/'')\<rparr>))"
  by (simp add: build_request_def endpoint_def cleanBaseUrl_append_slashes)

lemma valid_try_block:
  assumes "trim (prompt opts) \<noteq> []" "trim (apiKey opts) \<noteq> []" "trim (baseUrl opts) \<noteq> []"
  shows "try_block pf opts =
     ([build_request opts],
         and_then (fetch pf (build_request opts)) (\<lambda>response.
           if \<not> resp_ok response then error_of_response response
           else and_then (resp_json response) (result_of_body pf)))"
proof -
  from assms have "prompt opts \<noteq> []" "apiKey opts \<noteq> []" "baseUrl opts \<noteq> []"
    by (auto simp: trim_Nil)
  with assms show ?thesis unfolding try_block_def by simp
qed

lemma ok_body_result:
  assumes "trim (prompt opts) \<noteq> []" "trim (apiKey opts) \<noteq> []" "trim (baseUrl opts) \<noteq> []"
    and "fetch pf (build_request opts) = Inr resp" "resp_ok resp" "resp_json resp = Inr body"
  shows "snd (generateImage pf opts) =
           Inr (case result_of_body pf body of Inl e \<Rightarrow> catch_clause e | Inr r \<Rightarrow> r)"
  unfolding generateImage_snd valid_try_block [OF assms(1-3)]
  using assms(4-6) by (simp add: and_then_def)

lemma first_item_field_empty:
  "map_of kvs ''data'' = Some (JArr []) \<Longrightarrow> first_item_field pf (JObj kvs) k = Inr (JBool False)"
  by (simp add: first_item_field_def and_then_def own_property_def)

lemma first_item_field_absent:
  "map_of kvs ''data'' = None \<Longrightarrow> first_item_field pf (JObj kvs) k = Inr JUndefined"
  by (simp add: first_item_field_def and_then_def own_property_def)

lemma string_of_nat_0: "string_of_nat 0 = ''0''"
  by code_simp

lemma indexed_Cons_0: "map_of (indexed (x # xs)) ''0'' = Some x"
proof -
  have "[0 ..< Suc (length xs)] = 0 # [Suc 0 ..< Suc (length xs)]"
    by (rule upt_conv_Cons) simp
  then have "indexed (x # xs) = (string_of_nat 0, x) # zip (map string_of_nat [Suc 0 ..< Suc (length xs)]) xs"
    by (simp only: indexed_def length_Cons list.map zip_Cons_Cons)
  then show ?thesis
    by (simp only: string_of_nat_0 map_of.simps fst_conv snd_conv fun_upd_same)
qed

lemma first_item_field_object:
  "map_of kvs ''data'' = Some (JArr (JObj ivs # rest)) \<Longrightarrow>
     first_item_field pf (JObj kvs) k = Inr (own_property ivs k)"
  by (simp add: first_item_field_def and_then_def indexed_Cons_0 own_property_def)

lemma result_of_body_none:
  "map_of kvs ''data'' = None \<or> map_of kvs ''data'' = Some (JArr []) \<Longrightarrow>
     result_of_body pf (JObj kvs) = Inr (failure (JStr ''No image data in response''))"
  unfolding result_of_body_def
  by (auto simp: first_item_field_empty first_item_field_absent and_then_def)

lemma result_of_body_object:
  "map_of kvs ''data'' = Some (JArr (JObj ivs # rest)) \<Longrightarrow>
     result_of_body pf (JObj kvs) =
       Inr (if truthy (own_property ivs ''url'') then url_result (own_property ivs ''url'')
            else if truthy (own_property ivs ''b64_json'') then data_result (own_property ivs ''b64_json'')
            else failure (JStr ''No image data in response''))"
  unfolding result_of_body_def
  by (simp add: first_item_field_object and_then_def)

lemma success_exactly_one:
  assumes "snd (generateImage pf opts) = Inr r" "success r"
  shows "(imageUrl r = None) \<noteq> (imageData r = None)"
proof (cases "snd (try_block pf opts)")
  case (Inl e)
  with assms(1) have "r = catch_clause e" by (simp add: generateImage_snd)
  with assms(2) show ?thesis by (simp add: catch_clause_def failure_def)
next
  case (Inr r')
  with assms(1) have "r' = r" by (simp add: generateImage_snd)
  with try_block_shape [OF Inr] assms(2) show ?thesis
    by (auto simp: url_result_def data_result_def failure_def)
qed

text \<open>
  C4 (as amended). For a response that is \<^verbatim>\<open>ok\<close> and whose body parses to an object, the
  outcome is decided by the first result item alone, the URL field before the inline
  field: with no \<^verbatim>\<open>data\<close> or an empty \<^verbatim>\<open>data\<close> array the result is the failure
  \<^verbatim>\<open>"No image data in response"\<close>; when the first item is an object, a truthy \<^verbatim>\<open>url\<close> of
  that item gives \<^verbatim>\<open>imageUrl\<close>, else a truthy \<^verbatim>\<open>b64_json\<close> of that item gives
  \<^verbatim>\<open>imageData\<close>, else the same failure. Later items are never looked at. On every
  success exactly one of \<^verbatim>\<open>imageUrl\<close> and \<^verbatim>\<open>imageData\<close> is populated.
\<close>

theorem generateImage_first_item_precedence:
  assumes "trim (prompt opts) \<noteq> []" "trim (apiKey opts) \<noteq> []" "trim (baseUrl opts) \<noteq> []"
    and "fetch pf (build_request opts) = Inr resp" "resp_ok resp" "resp_json resp = Inr (JObj kvs)"
  shows "(map_of kvs ''data'' = None \<or> map_of kvs ''data'' = Some (JArr []) \<longrightarrow>
            snd (generateImage pf opts) = Inr (failure (JStr ''No image data in response'')))
       \<and> (\<forall>ivs rest. map_of kvs ''data'' = Some (JArr (JObj ivs # rest)) \<longrightarrow>
            snd (generateImage pf opts) =
              Inr (if truthy (own_property ivs ''url'') then url_result (own_property ivs ''url'')
                   else if truthy (own_property ivs ''b64_json'')
                     then data_result (own_property ivs ''b64_json'')
                   else failure (JStr ''No image data in response'')))
       \<and> (\<forall>r. snd (generateImage pf opts) = Inr r \<longrightarrow> success r \<longrightarrow>
              (imageUrl r = None) \<noteq> (imageData r = None))"
proof (intro conjI allI impI)
  assume "map_of kvs ''data'' = None \<or> map_of kvs ''data'' = Some (JArr [])"
  then show "snd (generateImage pf opts) = Inr (failure (JStr ''No image data in response''))"
    by (simp only: ok_body_result [OF assms] result_of_body_none sum.case)
next
  fix ivs rest
  assume "map_of kvs ''data'' = Some (JArr (JObj ivs # rest))"
  then show "snd (generateImage pf opts) =
              Inr (if truthy (own_property ivs ''url'') then url_result (own_property ivs ''url'')
                   else if truthy (own_property ivs ''b64_json'')
                     then data_result (own_property ivs ''b64_json'')
                   else failure (JStr ''No image data in response''))"
    by (simp only: ok_body_result [OF assms] result_of_body_object sum.case)
next
  fix r
  assume "snd (generateImage pf opts) = Inr r" "success r"
  then show "(imageUrl r = None) \<noteq> (imageData r = None)"
    by (rule success_exactly_one)
qed

text \<open>
  C4 as stated fails: a body whose second item carries the hosted URL contains a result
  item with a URL field, so the specification's outcome is \<^verbatim>\<open>imageUrl\<close>; the code looks
  at \<^verbatim>\<open>data[0]\<close> only and returns the failure. And a body of the wrong shape need not
  give the fixed failure text: for the body \<^verbatim>\<open>null\<close> the read of \<^verbatim>\<open>data.data\<close> raises, and
  the error returned is the TypeError's message.
\<close>

theorem generateImage_later_item_counterexample:
  "spec_outcome (JObj [(''data'', JArr [JObj [], JObj [(''url'', JStr ''https://img.example/1.png'')]])])
     = url_result (JStr ''https://img.example/1.png'')
   \<and> snd (generateImage
            (respond_with (ok_json
               (JObj [(''data'', JArr [JObj [], JObj [(''url'', JStr ''https://img.example/1.png'')]])])))
            sample_options)
     = Inr (failure (JStr ''No image data in response''))
   \<and> snd (generateImage (respond_with (ok_json JNull)) sample_options)
     = Inr (failure (JStr (message (type_error ''null'' ''data''))))"
  by code_simp

theorem generateImage_first_item_precedence_witness:
  "trim (prompt sample_options) \<noteq> [] \<and> trim (apiKey sample_options) \<noteq> []
   \<and> trim (baseUrl sample_options) \<noteq> []
   \<and> snd (generateImage
            (respond_with (ok_json
               (JObj [(''data'', JArr [JObj [(''b64_json'', JStr ''QUJD''),
                                             (''url'', JStr ''https://img.example/1.png'')]])])))
            sample_options)
     = Inr \<lparr> success = True, imageUrl = Some (JStr ''https://img.example/1.png''),
              imageData = None, error = None \<rparr>"
proof -
  let ?ivs = "[(''b64_json'', JStr ''QUJD''), (''url'', JStr ''https://img.example/1.png'')]"
  let ?kvs = "[(''data'', JArr [JObj ?ivs])]"
  let ?pf = "respond_with (ok_json (JObj ?kvs))"
  have p: "trim (prompt sample_options) \<noteq> []" by code_simp
  have k: "trim (apiKey sample_options) \<noteq> []" by code_simp
  have b: "trim (baseUrl sample_options) \<noteq> []" by code_simp
  have f: "fetch ?pf (build_request sample_options) = Inr (ok_json (JObj ?kvs))"
    by (simp add: respond_with_def)
  have ok: "resp_ok (ok_json (JObj ?kvs))" by (simp add: ok_json_def)
  have j: "resp_json (ok_json (JObj ?kvs)) = Inr (JObj ?kvs)" by (simp add: ok_json_def)
  have d: "map_of ?kvs ''data'' = Some (JArr (JObj ?ivs # []))" by simp
  from generateImage_first_item_precedence [OF p k b f ok j] d
  have "snd (generateImage ?pf sample_options) =
          Inr (if truthy (own_property ?ivs ''url'') then url_result (own_property ?ivs ''url'')
               else if truthy (own_property ?ivs ''b64_json'')
                 then data_result (own_property ?ivs ''b64_json'')
               else failure (JStr ''No image data in response''))"
    by blast
  then have "snd (generateImage ?pf sample_options) = Inr (url_result (JStr ''https://img.example/1.png''))"
    by (simp add: own_property_def)
  with p k b show ?thesis by (simp add: url_result_def)
qed

lemma generateImage_fst: "fst (generateImage pf opts) = fst (try_block pf opts)"
  by (cases "try_block pf opts" rule: prod.exhaust; cases "snd (try_block pf opts)";
      simp add: generateImage_def)

text \<open>
  C10. Leaving out \<^verbatim>\<open>model\<close>, \<^verbatim>\<open>size\<close>, \<^verbatim>\<open>quality\<close> or \<^verbatim>\<open>n\<close> is the same as passing
  \<^verbatim>\<open>"dall-e-3"\<close>, \<^verbatim>\<open>"1024x1024"\<close>, \<^verbatim>\<open>"standard"\<close> and \<^verbatim>\<open>1\<close>. The requests issued and the
  result are those of the call with the defaults filled in. When the three required
  fields are not blank, \<open>generateImage\<close> issues exactly one request, a POST to the
  endpoint whose body carries the trimmed prompt and, for each optional field, the value
  given or else its default. With all four left out that body carries exactly the four
  defaults.
\<close>

theorem generateImage_defaults:
  "generateImage pf opts =
     generateImage pf (opts\<lparr> model := Some (case model opts of None \<Rightarrow> ''dall-e-3'' | Some m \<Rightarrow> m),
                              size_opt := Some (case size_opt opts of None \<Rightarrow> S1024x1024 | Some s \<Rightarrow> s),
                              quality := Some (case quality opts of None \<Rightarrow> Standard | Some q \<Rightarrow> q),
                              n_opt := Some (case n_opt opts of None \<Rightarrow> 1 | Some k \<Rightarrow> k) \<rparr>)
   \<and> (trim (prompt opts) \<noteq> [] \<and> trim (apiKey opts) \<noteq> [] \<and> trim (baseUrl opts) \<noteq> [] \<longrightarrow>
        fst (generateImage pf opts) =
          [\<lparr> req_url = endpoint (baseUrl opts),
              req_method = ''POST'',
              req_headers = [(''Content-Type'', ''application/json''),
                             (''Authorization'', ''Bearer '' @ apiKey opts)],
              req_body =
                \<lparr> body_model = (case model opts of None \<Rightarrow> ''dall-e-3'' | Some m \<Rightarrow> m),
                   body_prompt = trim (prompt opts),
                   body_n = (case n_opt opts of None \<Rightarrow> 1 | Some k \<Rightarrow> k),
                   body_size = (case size_opt opts of None \<Rightarrow> S1024x1024 | Some s \<Rightarrow> s),
                   body_quality = (case quality opts of None \<Rightarrow> Standard | Some q \<Rightarrow> q),
                   body_response_format = ''url'' \<rparr> \<rparr>])
   \<and> req_body (build_request (opts\<lparr> model := None, size_opt := None, quality := None, n_opt := None \<rparr>))
       = \<lparr> body_model = ''dall-e-3'', body_prompt = trim (prompt opts), body_n = 1,
           body_size = S1024x1024, body_quality = Standard, body_response_format = ''url'' \<rparr>"
proof -
  let ?o = "opts\<lparr> model := Some (case model opts of None \<Rightarrow> ''dall-e-3'' | Some m \<Rightarrow> m),
                   size_opt := Some (case size_opt opts of None \<Rightarrow> S1024x1024 | Some s \<Rightarrow> s),
                   quality := Some (case quality opts of None \<Rightarrow> Standard | Some q \<Rightarrow> q),
                   n_opt := Some (case n_opt opts of None \<Rightarrow> 1 | Some k \<Rightarrow> k) \<rparr>"
  have b: "build_request ?o = build_request opts"
    by (simp add: build_request_def model_of_def size_of_def quality_of_def n_of_def)
  have "try_block pf ?o = try_block pf opts"
    unfolding try_block_def b by simp
  then have same: "generateImage pf ?o = generateImage pf opts"
    by (simp only: generateImage_def)
  have issued: "fst (generateImage pf opts) =
          [\<lparr> req_url = endpoint (baseUrl opts),
              req_method = ''POST'',
              req_headers = [(''Content-Type'', ''application/json''),
                             (''Authorization'', ''Bearer '' @ apiKey opts)],
              req_body =
                \<lparr> body_model = (case model opts of None \<Rightarrow> ''dall-e-3'' | Some m \<Rightarrow> m),
                   body_prompt = trim (prompt opts),
                   body_n = (case n_opt opts of None \<Rightarrow> 1 | Some k \<Rightarrow> k),
                   body_size = (case size_opt opts of None \<Rightarrow> S1024x1024 | Some s \<Rightarrow> s),
                   body_quality = (case quality opts of None \<Rightarrow> Standard | Some q \<Rightarrow> q),
                   body_response_format = ''url'' \<rparr> \<rparr>]"
    if "trim (prompt opts) \<noteq> []" "trim (apiKey opts) \<noteq> []" "trim (baseUrl opts) \<noteq> []"
    unfolding generateImage_fst valid_try_block [OF that]
    by (simp add: build_request_def model_of_def size_of_def quality_of_def n_of_def)
  have omitted: "req_body (build_request (opts\<lparr> model := None, size_opt := None, quality := None, n_opt := None \<rparr>))
       = \<lparr> body_model = ''dall-e-3'', body_prompt = trim (prompt opts), body_n = 1,
           body_size = S1024x1024, body_quality = Standard, body_response_format = ''url'' \<rparr>"
    by (simp add: build_request_def model_of_def size_of_def quality_of_def n_of_def)
  from same issued omitted show ?thesis by simp
qed

theorem generateImage_defaults_witness:
  "trim (prompt sample_options) \<noteq> [] \<and> trim (apiKey sample_options) \<noteq> []
   \<and> trim (baseUrl sample_options) \<noteq> []
   \<and> fst (generateImage (respond_with (ok_json JNull)) sample_options) =
          [\<lparr> req_url = endpoint ''https://api.example/v1/'',
              req_method = ''POST'',
              req_headers = [(''Content-Type'', ''application/json''),
                             (''Authorization'', ''Bearer key'')],
              req_body =
                \<lparr> body_model = ''dall-e-3'', body_prompt = ''a cat'', body_n = 1,
                   body_size = S1024x1024, body_quality = Standard,
                   body_response_format = ''url'' \<rparr> \<rparr>]"
proof -
  have p: "trim (prompt sample_options) \<noteq> []" by code_simp
  have k: "trim (apiKey sample_options) \<noteq> []" by code_simp
  have b: "trim (baseUrl sample_options) \<noteq> []" by code_simp
  have t: "trim (prompt sample_options) = ''a cat''" by code_simp
  from generateImage_defaults [of "respond_with (ok_json JNull)" sample_options] p k b
  have "fst (generateImage (respond_with (ok_json JNull)) sample_options) =
          [\<lparr> req_url = endpoint (baseUrl sample_options),
              req_method = ''POST'',
              req_headers = [(''Content-Type'', ''application/json''),
                             (''Authorization'', ''Bearer '' @ apiKey sample_options)],
              req_body =
                \<lparr> body_model = (case model sample_options of None \<Rightarrow> ''dall-e-3'' | Some m \<Rightarrow> m),
                   body_prompt = trim (prompt sample_options),
                   body_n = (case n_opt sample_options of None \<Rightarrow> 1 | Some k \<Rightarrow> k),
                   body_size = (case size_opt sample_options of None \<Rightarrow> S1024x1024 | Some s \<Rightarrow> s),
                   body_quality = (case quality sample_options of None \<Rightarrow> Standard | Some q \<Rightarrow> q),
                   body_response_format = ''url'' \<rparr> \<rparr>]"
    by blast
  then have "fst (generateImage (respond_with (ok_json JNull)) sample_options) =
          [\<lparr> req_url = endpoint ''https://api.example/v1/'',
              req_method = ''POST'',
              req_headers = [(''Content-Type'', ''application/json''),
                             (''Authorization'', ''Bearer key'')],
              req_body =
                \<lparr> body_model = ''dall-e-3'', body_prompt = ''a cat'', body_n = 1,
                   body_size = S1024x1024, body_quality = Standard,
                   body_response_format = ''url'' \<rparr> \<rparr>]"
    unfolding t by (simp add: sample_options_def)
  with p k b show ?thesis by simp
qed

section \<open>Properties of the character creation workflow\<close>

lemma carries_required_raw: "carries_required (rawCharacterData fm)"
  by (simp add: carries_required_def rawCharacterData_def own_property_def)

lemma createCharacter_fresh:
  assumes "cid \<notin> set (map rec_id (records w))" "records_io_ok w"
  shows "createCharacter w cid (rawCharacterData fm) key =
           Inr (w\<lparr> records := records w @ [\<lparr> rec_id = cid, rec_data = rawCharacterData fm, rec_avatar = key \<rparr>] \<rparr>)"
  using assms by (simp add: createCharacter_def carries_required_raw)

lemma createCharacter_Inr:
  assumes "createCharacter w cid raw key = Inr w1"
  shows "w1 = w\<lparr> records := records w @ [\<lparr> rec_id = cid, rec_data = raw, rec_avatar = key \<rparr>] \<rparr>"
    and "cid \<notin> set (map rec_id (records w))"
  using assms by (auto simp: createCharacter_def split: if_splits)

lemma find_appended:
  "\<forall>x \<in> set xs. \<not> P x \<Longrightarrow> P y \<Longrightarrow> find P (xs @ [y]) = Some y"
  by (induction xs) simp_all

lemma find_append_keep:
  "find P xs = Some x \<Longrightarrow> find P (xs @ ys) = Some x"
  by (induction xs) (simp_all split: if_splits)

lemma getCharacter_created:
  assumes "createCharacter w cid raw key = Inr w1"
  shows "getCharacter w1 cid = Some \<lparr> rec_id = cid, rec_data = raw, rec_avatar = key \<rparr>"
proof -
  from createCharacter_Inr [OF assms]
  have w1: "records w1 = records w @ [\<lparr> rec_id = cid, rec_data = raw, rec_avatar = key \<rparr>]"
    and fresh: "\<forall>r \<in> set (records w). \<not> rec_id r = cid"
    by auto
  show ?thesis
    unfolding getCharacter_def w1 by (rule find_appended [OF fresh]) simp
qed

lemma steps_created:
  assumes "trim (name fm) \<noteq> []" "trim (personality fm) \<noteq> []"
    and "createCharacter w (characterId now) (rawCharacterData fm) (imagePath now fm) = Inr w1"
  shows "handleSubmit now w fm =
        [ (PreventDefault, w), (SetIsLoading True, w),
          (TrackButtonClick ''create_character_submit'' ''Submit Create Character'', w),
          (DateNow, w),
          (CreateCharacter (characterId now) (rawCharacterData fm) (imagePath now fm), w1) ] @
             (case avatarFile fm of
                None \<Rightarrow> on_success w1
              | Some f \<Rightarrow>
                  (case setBlob w1 (imagePath now fm) f of
                     Inl e \<Rightarrow> (SetBlob (imagePath now fm) f, w1) # on_error e w1
                   | Inr w2 \<Rightarrow> (SetBlob (imagePath now fm) f, w2) # on_success w2))"
  using assms unfolding handleSubmit_def by simp

lemma steps_refused:
  assumes "trim (name fm) \<noteq> []" "trim (personality fm) \<noteq> []"
    and "createCharacter w (characterId now) (rawCharacterData fm) (imagePath now fm) = Inl e"
  shows "handleSubmit now w fm =
        [ (PreventDefault, w), (SetIsLoading True, w),
          (TrackButtonClick ''create_character_submit'' ''Submit Create Character'', w),
          (DateNow, w),
          (CreateCharacter (characterId now) (rawCharacterData fm) (imagePath now fm), w) ] @ on_error e w"
  using assms unfolding handleSubmit_def by simp

text \<open>
  C1 (as amended). The order is the reverse of the one claimed: within one invocation the
  record write comes first. Whenever \<open>handleSubmit\<close> writes a blob, the key is
  \<^verbatim>\<open><id>.png\<close>, the bytes are the form's avatar file, and among the steps before the
  blob write is the successful \<open>createCharacter\<close> of the record whose avatar key is that
  very key; when that step completed the record was already retrievable and the blob
  store was still as the invocation found it. No blob is written when the record write
  fails.
\<close>

theorem record_write_precedes_blob_write:
  assumes "(SetBlob key f, w2) \<in> set (handleSubmit now w fm)"
  shows "\<exists>w1. key = characterId now @ ''.png'' \<and> avatarFile fm = Some f
          \<and> createCharacter w (characterId now) (rawCharacterData fm) key = Inr w1
          \<and> (CreateCharacter (characterId now) (rawCharacterData fm) key, w1)
                \<in> set (before_blob_write (handleSubmit now w fm))
          \<and> getCharacter w1 (characterId now)
                = Some \<lparr> rec_id = characterId now, rec_data = rawCharacterData fm, rec_avatar = key \<rparr>
          \<and> blobs w1 = blobs w"
proof -
  have n: "trim (name fm) \<noteq> []" and p: "trim (personality fm) \<noteq> []"
    using assms unfolding handleSubmit_def by (auto split: if_splits)
  show ?thesis
  proof (cases "createCharacter w (characterId now) (rawCharacterData fm) (imagePath now fm)")
    case (Inl e)
    from assms show ?thesis
      unfolding steps_refused [OF n p Inl] by (simp add: on_error_def)
  next
    case (Inr w1)
    note steps = steps_created [OF n p Inr]
    show ?thesis
    proof (cases "avatarFile fm")
      case None
      with assms show ?thesis
        unfolding steps by (simp add: on_success_def)
    next
      case (Some f')
      then have path: "imagePath now fm = characterId now @ ''.png''"
        by (simp add: imagePath_def)
      from assms Some have kf: "key = imagePath now fm \<and> f = f'"
        unfolding steps by (auto simp: on_success_def on_error_def split: sum.splits)
      have before: "(CreateCharacter (characterId now) (rawCharacterData fm) (imagePath now fm), w1)
                \<in> set (before_blob_write (handleSubmit now w fm))"
        unfolding steps before_blob_write_def using Some
        by (simp add: is_blob_write_def split: sum.splits)
      have "blobs w1 = blobs w"
        using createCharacter_Inr(1) [OF Inr] by simp
      with kf path Some Inr before getCharacter_created [OF Inr] show ?thesis
        by auto
    qed
  qed
qed

lemma after_submit_created:
  assumes "trim (name fm) \<noteq> []" "trim (personality fm) \<noteq> []"
    and "characterId now \<notin> set (map rec_id (records w))" "records_io_ok w"
  shows "records (after_submit now w fm) =
           records w @ [\<lparr> rec_id = characterId now, rec_data = rawCharacterData fm,
                          rec_avatar = imagePath now fm \<rparr>]"
    and "records_io_ok (after_submit now w fm)"
    and "blobs (after_submit now w fm) =
           (case avatarFile fm of
              None \<Rightarrow> blobs w
            | Some f \<Rightarrow> if blobs_io_ok w then (blobs w)(imagePath now fm \<mapsto> f) else blobs w)"
proof -
  let ?w1 = "w\<lparr> records := records w @ [\<lparr> rec_id = characterId now, rec_data = rawCharacterData fm,
                                            rec_avatar = imagePath now fm \<rparr>] \<rparr>"
  note steps = steps_created [OF assms(1,2) createCharacter_fresh [OF assms(3,4)]]
  have "after_submit now w fm =
          (case avatarFile fm of
             None \<Rightarrow> ?w1
           | Some f \<Rightarrow> if blobs_io_ok w then ?w1\<lparr> blobs := (blobs w)(imagePath now fm \<mapsto> f) \<rparr> else ?w1)"
    unfolding after_submit_def final_world_def steps
    by (simp add: on_success_def on_error_def setBlob_def split: option.split)
  then show "records (after_submit now w fm) =
           records w @ [\<lparr> rec_id = characterId now, rec_data = rawCharacterData fm,
                          rec_avatar = imagePath now fm \<rparr>]"
    and "records_io_ok (after_submit now w fm)"
    and "blobs (after_submit now w fm) =
           (case avatarFile fm of
              None \<Rightarrow> blobs w
            | Some f \<Rightarrow> if blobs_io_ok w then (blobs w)(imagePath now fm \<mapsto> f) else blobs w)"
    using assms(4) by (simp_all split: option.split)
qed

text \<open>
  C9 (as amended). Two invocations back to back whose \<^verbatim>\<open>Date.now()\<close> readings differ,
  with valid forms, ids that are not yet in the store and a record store that accepts
  writes: the two ids differ, and each id retrieves the record built from its own form.
\<close>

theorem distinct_clock_readings_distinct_records:
  assumes "trim (name f1) \<noteq> []" "trim (personality f1) \<noteq> []"
    and "trim (name f2) \<noteq> []" "trim (personality f2) \<noteq> []"
    and "t1 \<noteq> t2"
    and "characterId t1 \<notin> set (map rec_id (records w))"
    and "characterId t2 \<notin> set (map rec_id (records w))"
    and "records_io_ok w"
  shows "characterId t1 \<noteq> characterId t2
       \<and> getCharacter (two_submits t1 f1 t2 f2 w) (characterId t1)
           = Some \<lparr> rec_id = characterId t1, rec_data = rawCharacterData f1, rec_avatar = imagePath t1 f1 \<rparr>
       \<and> getCharacter (two_submits t1 f1 t2 f2 w) (characterId t2)
           = Some \<lparr> rec_id = characterId t2, rec_data = rawCharacterData f2, rec_avatar = imagePath t2 f2 \<rparr>"
proof -
  let ?r1 = "\<lparr> rec_id = characterId t1, rec_data = rawCharacterData f1, rec_avatar = imagePath t1 f1 \<rparr>"
  let ?r2 = "\<lparr> rec_id = characterId t2, rec_data = rawCharacterData f2, rec_avatar = imagePath t2 f2 \<rparr>"
  let ?w1 = "after_submit t1 w f1"
  from assms(5) have ids: "characterId t1 \<noteq> characterId t2"
    using characterId_inj by blast
  have r1: "records ?w1 = records w @ [?r1]" and io1: "records_io_ok ?w1"
    using after_submit_created(1,2) [OF assms(1,2,6,8)] by simp_all
  from assms(7) ids have fresh2: "characterId t2 \<notin> set (map rec_id (records ?w1))"
    by (simp add: r1)
  have r2: "records (two_submits t1 f1 t2 f2 w) = (records w @ [?r1]) @ [?r2]"
    unfolding two_submits_def
    using after_submit_created(1) [OF assms(3,4) fresh2 io1] by (simp add: r1)
  have none1: "\<forall>r \<in> set (records w). \<not> rec_id r = characterId t1"
    using assms(6) by (auto simp: image_iff)
  have "find (\<lambda>r. rec_id r = characterId t1) (records w @ [?r1]) = Some ?r1"
    by (rule find_appended [OF none1]) simp
  then have g1: "getCharacter (two_submits t1 f1 t2 f2 w) (characterId t1) = Some ?r1"
    unfolding getCharacter_def r2 by (rule find_append_keep)
  have none2: "\<forall>r \<in> set (records w @ [?r1]). \<not> rec_id r = characterId t2"
    using assms(7) ids by (auto simp: image_iff)
  have g2: "getCharacter (two_submits t1 f1 t2 f2 w) (characterId t2) = Some ?r2"
    unfolding getCharacter_def r2 by (rule find_appended [OF none2]) simp
  from ids g1 g2 show ?thesis by simp
qed

lemma after_submit_refused:
  assumes "trim (name fm) \<noteq> []" "trim (personality fm) \<noteq> []"
    and "createCharacter w (characterId now) (rawCharacterData fm) (imagePath now fm) = Inl e"
  shows "after_submit now w fm = w"
  unfolding after_submit_def final_world_def steps_refused [OF assms]
  by (simp add: on_error_def)

lemma steps_with_avatar:
  assumes "trim (name fm) \<noteq> []" "trim (personality fm) \<noteq> []"
    and "avatarFile fm = Some f"
    and "characterId now \<notin> set (map rec_id (records w))" "records_io_ok w" "blobs_io_ok w"
  shows "handleSubmit now w fm =
        [ (PreventDefault, w), (SetIsLoading True, w),
          (TrackButtonClick ''create_character_submit'' ''Submit Create Character'', w),
          (DateNow, w),
          (CreateCharacter (characterId now) (rawCharacterData fm) (imagePath now fm),
             w\<lparr> records := records w @ [\<lparr> rec_id = characterId now, rec_data = rawCharacterData fm,
                                            rec_avatar = imagePath now fm \<rparr>] \<rparr>),
          (SetBlob (imagePath now fm) f, after_submit now w fm) ] @ on_success (after_submit now w fm)"
proof -
  note steps = steps_created [OF assms(1,2) createCharacter_fresh [OF assms(4,5)]]
  have a: "after_submit now w fm =
             w\<lparr> records := records w @ [\<lparr> rec_id = characterId now, rec_data = rawCharacterData fm,
                                            rec_avatar = imagePath now fm \<rparr>],
                blobs := (blobs w)(imagePath now fm \<mapsto> f) \<rparr>"
    unfolding after_submit_def final_world_def steps using assms(3,6)
    by (simp add: on_success_def setBlob_def)
  show ?thesis
    unfolding a unfolding steps using assms(3,6) by (simp add: setBlob_def)
qed

lemma sample_valid:
  "trim (name sample_form) \<noteq> []" "trim (personality sample_form) \<noteq> []"
  by code_simp+

lemma sample_avatar: "avatarFile sample_form = Some sample_file"
  by (simp add: sample_form_def)

lemma png_path_not_default: "characterId t @ ''.png'' \<noteq> ''default-avatar.png''"
  by (simp add: characterId_def)

lemma imagePath_avatar: "avatarFile fm = Some f \<Longrightarrow> imagePath t fm = characterId t @ ''.png''"
  by (simp add: imagePath_def)

text \<open>
  C1 as stated fails. A valid form with an avatar file, submitted in the empty world:
  the record write is among the steps that precede the blob write; after it the world
  holds a record whose avatar key names no blob; and when the blob store refuses the
  write, that is how the invocation leaves the world.
\<close>

theorem record_before_blob_counterexample:
  "list_ex is_record_write (before_blob_write (handleSubmit 1700000000000 empty_world sample_form))
   \<and> list_ex dangling (map snd (handleSubmit 1700000000000 empty_world sample_form))
   \<and> dangling (after_submit 1700000000000 (empty_world\<lparr> blobs_io_ok := False \<rparr>) sample_form)"
proof -
  have steps: "handleSubmit 1700000000000 empty_world sample_form =
        [ (PreventDefault, empty_world), (SetIsLoading True, empty_world),
          (TrackButtonClick ''create_character_submit'' ''Submit Create Character'', empty_world),
          (DateNow, empty_world),
          (CreateCharacter (characterId 1700000000000) (rawCharacterData sample_form)
             (imagePath 1700000000000 sample_form),
             empty_world\<lparr> records := records empty_world @
                [\<lparr> rec_id = characterId 1700000000000, rec_data = rawCharacterData sample_form,
                   rec_avatar = imagePath 1700000000000 sample_form \<rparr>] \<rparr>),
          (SetBlob (imagePath 1700000000000 sample_form) sample_file,
             after_submit 1700000000000 empty_world sample_form) ]
          @ on_success (after_submit 1700000000000 empty_world sample_form)"
    by (rule steps_with_avatar [OF sample_valid sample_avatar]) (simp_all add: empty_world_def)
  have a: "list_ex is_record_write (before_blob_write (handleSubmit 1700000000000 empty_world sample_form))"
    unfolding steps before_blob_write_def
    by (simp add: is_blob_write_def is_record_write_def)
  have b: "list_ex dangling (map snd (handleSubmit 1700000000000 empty_world sample_form))"
    unfolding steps
    by (simp add: dangling_def empty_world_def imagePath_avatar [OF sample_avatar] png_path_not_default)
  have c: "dangling (after_submit 1700000000000 (empty_world\<lparr> blobs_io_ok := False \<rparr>) sample_form)"
    unfolding dangling_def
    using after_submit_created(1,3) [OF sample_valid, of 1700000000000 "empty_world\<lparr> blobs_io_ok := False \<rparr>"]
    by (simp add: empty_world_def sample_avatar imagePath_avatar [OF sample_avatar] png_path_not_default)
  from a b c show ?thesis by simp
qed

theorem record_write_precedes_blob_write_witness:
  "(SetBlob (characterId 1700000000000 @ ''.png'') sample_file,
      after_submit 1700000000000 empty_world sample_form)
     \<in> set (handleSubmit 1700000000000 empty_world sample_form)
   \<and> (\<exists>w1. createCharacter empty_world (characterId 1700000000000) (rawCharacterData sample_form)
                (characterId 1700000000000 @ ''.png'') = Inr w1
            \<and> (CreateCharacter (characterId 1700000000000) (rawCharacterData sample_form)
                  (characterId 1700000000000 @ ''.png''), w1)
                \<in> set (before_blob_write (handleSubmit 1700000000000 empty_world sample_form))
            \<and> blobs w1 = blobs empty_world)"
proof -
  have "handleSubmit 1700000000000 empty_world sample_form =
        [ (PreventDefault, empty_world), (SetIsLoading True, empty_world),
          (TrackButtonClick ''create_character_submit'' ''Submit Create Character'', empty_world),
          (DateNow, empty_world),
          (CreateCharacter (characterId 1700000000000) (rawCharacterData sample_form)
             (imagePath 1700000000000 sample_form),
             empty_world\<lparr> records := records empty_world @
                [\<lparr> rec_id = characterId 1700000000000, rec_data = rawCharacterData sample_form,
                   rec_avatar = imagePath 1700000000000 sample_form \<rparr>] \<rparr>),
          (SetBlob (imagePath 1700000000000 sample_form) sample_file,
             after_submit 1700000000000 empty_world sample_form) ]
          @ on_success (after_submit 1700000000000 empty_world sample_form)"
    by (rule steps_with_avatar [OF sample_valid sample_avatar]) (simp_all add: empty_world_def)
  then have m: "(SetBlob (characterId 1700000000000 @ ''.png'') sample_file,
      after_submit 1700000000000 empty_world sample_form)
     \<in> set (handleSubmit 1700000000000 empty_world sample_form)"
    by (simp add: imagePath_avatar [OF sample_avatar])
  from record_write_precedes_blob_write [OF m] m show ?thesis
    by blast
qed

theorem distinct_clock_readings_distinct_records_witness:
  "trim (name sample_form) \<noteq> [] \<and> trim (personality sample_form) \<noteq> []
   \<and> trim (name (sample_form\<lparr> name := ''Bob'' \<rparr>)) \<noteq> []
   \<and> (1700000000000 :: int) \<noteq> 1700000000001
   \<and> characterId 1700000000000 \<noteq> characterId 1700000000001
   \<and> getCharacter (two_submits 1700000000000 sample_form 1700000000001
                       (sample_form\<lparr> name := ''Bob'' \<rparr>) empty_world) (characterId 1700000000000)
       = Some \<lparr> rec_id = characterId 1700000000000, rec_data = rawCharacterData sample_form,
                rec_avatar = characterId 1700000000000 @ ''.png'' \<rparr>
   \<and> getCharacter (two_submits 1700000000000 sample_form 1700000000001
                       (sample_form\<lparr> name := ''Bob'' \<rparr>) empty_world) (characterId 1700000000001)
       = Some \<lparr> rec_id = characterId 1700000000001,
                rec_data = rawCharacterData (sample_form\<lparr> name := ''Bob'' \<rparr>),
                rec_avatar = characterId 1700000000001 @ ''.png'' \<rparr>"
proof -
  let ?bob = "sample_form\<lparr> name := ''Bob'' \<rparr>"
  have b: "trim (name ?bob) \<noteq> []" "trim (personality ?bob) \<noteq> []"
    by code_simp+
  have t: "(1700000000000 :: int) \<noteq> 1700000000001" by simp
  have f: "characterId 1700000000000 \<notin> set (map rec_id (records empty_world))"
    "characterId 1700000000001 \<notin> set (map rec_id (records empty_world))"
    by (simp_all add: empty_world_def)
  have io: "records_io_ok empty_world" by (simp add: empty_world_def)
  have av: "avatarFile ?bob = Some sample_file" by (simp add: sample_form_def)
  from distinct_clock_readings_distinct_records [OF sample_valid b t f io] sample_valid b(1) t
  show ?thesis
    by (simp add: imagePath_avatar [OF sample_avatar] imagePath_avatar [OF av])
qed

text \<open>
  C9 as stated fails. Two invocations with the names \<^verbatim>\<open>Alice\<close> and \<^verbatim>\<open>Bob\<close> that read
  the same millisecond from the clock generate the same id; the second record write is
  refused, the store holds one record, and the id retrieves the first form's record.
\<close>

theorem same_millisecond_counterexample:
  "map rec_id (records (two_submits 1700000000000 sample_form 1700000000000
                          (sample_form\<lparr> name := ''Bob'' \<rparr>) empty_world))
     = [characterId 1700000000000]
   \<and> getCharacter (two_submits 1700000000000 sample_form 1700000000000
                       (sample_form\<lparr> name := ''Bob'' \<rparr>) empty_world) (characterId 1700000000000)
     = Some \<lparr> rec_id = characterId 1700000000000, rec_data = rawCharacterData sample_form,
              rec_avatar = characterId 1700000000000 @ ''.png'' \<rparr>"
proof -
  let ?bob = "sample_form\<lparr> name := ''Bob'' \<rparr>"
  let ?w1 = "after_submit 1700000000000 empty_world sample_form"
  have b: "trim (name ?bob) \<noteq> []" "trim (personality ?bob) \<noteq> []"
    by code_simp+
  have r1: "records ?w1 = [\<lparr> rec_id = characterId 1700000000000, rec_data = rawCharacterData sample_form,
                              rec_avatar = characterId 1700000000000 @ ''.png'' \<rparr>]"
    using after_submit_created(1) [OF sample_valid, of 1700000000000 empty_world]
    by (simp add: empty_world_def imagePath_avatar [OF sample_avatar])
  have "createCharacter ?w1 (characterId 1700000000000) (rawCharacterData ?bob)
          (imagePath 1700000000000 ?bob) = Inl (Error ''StorageError: id already exists'')"
    by (simp add: createCharacter_def carries_required_raw r1)
  from after_submit_refused [OF b this]
  have "two_submits 1700000000000 sample_form 1700000000000 ?bob empty_world = ?w1"
    by (simp add: two_submits_def)
  then show ?thesis
    by (simp add: r1 getCharacter_def)
qed

text \<open>
  C6. When the name or the personality is empty after trimming, \<open>handleSubmit\<close> shows
  the error toast for the first such field and returns: the clock is not read (no id is
  generated), neither store is written, and the world is unchanged.
\<close>

theorem handleSubmit_rejects_blank:
  assumes "trim (name fm) = [] \<or> trim (personality fm) = []"
  shows "handleSubmit now w fm =
           [(PreventDefault, w),
            (ShowToast (if trim (name fm) = [] then ''Character name is required''
                        else ''Character personality is required'') ToastError, w)]
         \<and> final_world w (handleSubmit now w fm) = w
         \<and> filter is_record_write (handleSubmit now w fm) = []
         \<and> filter is_blob_write (handleSubmit now w fm) = []
         \<and> DateNow \<notin> set (map fst (handleSubmit now w fm))"
proof -
  have h: "handleSubmit now w fm =
           [(PreventDefault, w),
            (ShowToast (if trim (name fm) = [] then ''Character name is required''
                        else ''Character personality is required'') ToastError, w)]"
    using assms unfolding handleSubmit_def by auto
  show ?thesis
    unfolding h by (simp add: final_world_def is_record_write_def is_blob_write_def)
qed

theorem handleSubmit_rejects_blank_witness:
  "trim (personality (sample_form\<lparr> personality := ''   '' \<rparr>)) = []
   \<and> handleSubmit 1700000000000 empty_world (sample_form\<lparr> personality := ''   '' \<rparr>)
       = [(PreventDefault, empty_world),
          (ShowToast ''Character personality is required'' ToastError, empty_world)]"
proof -
  let ?fm = "sample_form\<lparr> personality := ''   '' \<rparr>"
  have p: "trim (personality ?fm) = []" by code_simp
  have n: "trim (name ?fm) \<noteq> []" by code_simp
  from p have h: "trim (name ?fm) = [] \<or> trim (personality ?fm) = []" by (simp only: simp_thms)
  from handleSubmit_rejects_blank [OF h, of 1700000000000 empty_world] n p show ?thesis
    by simp
qed

text \<open>
  C5. The payload that \<open>handleSubmit\<close> builds has \<^verbatim>\<open>character_book: null\<close>, whatever the
  form: there is no book and no \<^verbatim>\<open>entries\<close> sequence, and reading
  \<^verbatim>\<open>data.character_book.entries\<close> raises. The repository's own change notes say that the
  payload was fixed to carry \<^verbatim>\<open>character_book.entries\<close> as an array instead of \<^verbatim>\<open>null\<close>.
\<close>

theorem character_book_is_null:
  "character_book_of (rawCharacterData fm) = Inr JNull
   \<and> entries_of (rawCharacterData fm) = Inl (type_error ''null'' ''entries'')"
  by (simp add: entries_of_def character_book_of_def rawCharacterData_def and_then_def own_property_def)

section \<open>Properties of the media conversion adapter\<close>

lemma length_alphabet: "length alphabet = 64"
  by (simp add: alphabet_def)

lemma distinct_alphabet: "distinct alphabet"
  by (simp add: alphabet_def)

lemma eq_not_in_alphabet: "CHR ''='' \<notin> set alphabet"
  by (simp add: alphabet_def)

lemma colon_not_in_alphabet: "CHR '':'' \<notin> set alphabet"
  by (simp add: alphabet_def)

lemma alphabet_no_whitespace: "c \<in> set alphabet \<Longrightarrow> \<not> is_ascii_whitespace c"
  by (auto simp: alphabet_def is_ascii_whitespace_def)

lemma eq_no_whitespace: "\<not> is_ascii_whitespace (CHR ''='')"
  by (simp add: is_ascii_whitespace_def)

lemma index_of_nth: "distinct xs \<Longrightarrow> i < length xs \<Longrightarrow> index_of (xs ! i) xs = Some i"
proof (induction xs arbitrary: i)
  case Nil
  then show ?case by simp
next
  case (Cons x xs)
  show ?case
  proof (cases i)
    case 0
    then show ?thesis by simp
  next
    case (Suc j)
    with Cons.prems have "j < length xs" "xs ! j \<noteq> x" "distinct xs"
      by auto
    with Cons.IH [of j] Suc show ?thesis by auto
  qed
qed

lemma sextet_value_alphabet: "v < 64 \<Longrightarrow> sextet_value (alphabet ! v) = v"
  by (simp add: sextet_value_def index_of_nth distinct_alphabet length_alphabet)

lemma nth_alphabet_in: "v < 64 \<Longrightarrow> alphabet ! v \<in> set alphabet"
  by (simp add: length_alphabet)

lemma unat_byte: "unat (a :: 8 word) < 256"
  using unsigned_less [of a, where ?'a = nat] by simp

lemma encode_eq:
  "reference_encode bs = map (\<lambda>v. alphabet ! v) (sextets_of bs) @ padding_of bs"
  by (induction bs rule: sextets_of.induct) (simp_all add: Let_def)

lemma sextets_of_bound: "v \<in> set (sextets_of bs) \<Longrightarrow> v < 64"
proof (induction bs rule: sextets_of.induct)
  case (1 a b c rest)
  have "(unat a * 256 + unat b) * 256 + unat c < 16777216"
    using unat_byte [of a] unat_byte [of b] unat_byte [of c] by simp
  then have "((unat a * 256 + unat b) * 256 + unat c) div 262144 < 64"
    by simp
  with 1 show ?case by (auto simp: Let_def)
next
  case (2 a b)
  have "(unat a * 256 + unat b) * 4 < 262144"
    using unat_byte [of a] unat_byte [of b] by simp
  then have "((unat a * 256 + unat b) * 4) div 4096 < 64"
    by simp
  with 2 show ?case by (auto simp: Let_def)
next
  case (3 a)
  have "unat a * 16 < 4096"
    using unat_byte [of a] by simp
  then have "(unat a * 16) div 64 < 64"
    by simp
  with 3 show ?case by (auto simp: Let_def)
next
  case 4
  then show ?case by simp
qed

lemma encode_shape:
  "(padding_of bs = [] \<and> length (sextets_of bs) mod 4 = 0)
   \<or> (padding_of bs = ''='' \<and> length (sextets_of bs) mod 4 = 3)
   \<or> (padding_of bs = ''=='' \<and> length (sextets_of bs) mod 4 = 2)"
  by (induction bs rule: sextets_of.induct) (simp_all add: Let_def)

lemma regroup4:
  "((n div 262144 * 64 + n div 4096 mod 64) * 64 + n div 64 mod 64) * 64 + n mod 64 = (n :: nat)"
proof -
  have a: "n div 4096 = n div 64 div 64" by (simp add: div_mult2_eq)
  have b: "n div 262144 = n div 64 div 64 div 64" by (simp add: div_mult2_eq)
  have "n div 64 div 64 div 64 * 64 + n div 64 div 64 mod 64 = n div 64 div 64"
    by (rule div_mult_mod_eq)
  then have "(n div 64 div 64 div 64 * 64 + n div 64 div 64 mod 64) * 64 + n div 64 mod 64 = n div 64"
    by (simp only: div_mult_mod_eq)
  then have "((n div 64 div 64 div 64 * 64 + n div 64 div 64 mod 64) * 64 + n div 64 mod 64) * 64 + n mod 64 = n"
    by (simp only: div_mult_mod_eq)
  then show ?thesis by (simp only: a b)
qed

lemma regroup3:
  "(n div 4096 * 64 + n div 64 mod 64) * 64 + n mod 64 = (n :: nat)"
proof -
  have a: "n div 4096 = n div 64 div 64" by (simp add: div_mult2_eq)
  have "n div 64 div 64 * 64 + n div 64 mod 64 = n div 64"
    by (rule div_mult_mod_eq)
  then have "(n div 64 div 64 * 64 + n div 64 mod 64) * 64 + n mod 64 = n"
    by (simp only: div_mult_mod_eq)
  then show ?thesis by (simp only: a)
qed

lemma regroup2: "n div 64 * 64 + n mod 64 = (n :: nat)"
  by (rule div_mult_mod_eq)

lemma bytes3:
  assumes "a < 256" "b < 256" "c < (256::nat)"
  shows "((a * 256 + b) * 256 + c) div 65536 = a"
    and "((a * 256 + b) * 256 + c) div 256 mod 256 = b"
    and "((a * 256 + b) * 256 + c) mod 256 = c"
proof -
  show "((a * 256 + b) * 256 + c) div 65536 = a"
    using assms by simp
  have d: "((a * 256 + b) * 256 + c) div 256 = a * 256 + b"
    using assms(3) by simp
  show "((a * 256 + b) * 256 + c) div 256 mod 256 = b"
    unfolding d using assms(2) by simp
  show "((a * 256 + b) * 256 + c) mod 256 = c"
    using assms(3) by (simp only: mod_mult_self3 mod_less)
qed

lemma bytes2:
  assumes "a < 256" "b < (256::nat)"
  shows "(a * 256 + b) * 4 div 4 div 256 = a" and "(a * 256 + b) * 4 div 4 mod 256 = b"
  using assms by simp_all

lemma decode_sextets_of: "decode_sextets (sextets_of bs) = map (\<lambda>b. char_of (unat b)) bs"
proof (induction bs rule: sextets_of.induct)
  case (1 a b c rest)
  let ?n = "(unat a * 256 + unat b) * 256 + unat c"
  have "decode_sextets (sextets_of (a # b # c # rest)) =
          [char_of (?n div 65536), char_of (?n div 256 mod 256), char_of (?n mod 256)]
            @ decode_sextets (sextets_of rest)"
    by (simp only: sextets_of.simps decode_sextets.simps Let_def append_Cons append_Nil regroup4)
  also have "\<dots> = [char_of (unat a), char_of (unat b), char_of (unat c)] @ map (\<lambda>b. char_of (unat b)) rest"
    by (simp only: bytes3 [OF unat_byte unat_byte unat_byte] 1)
  finally show ?case by simp
next
  case (2 a b)
  let ?n = "(unat a * 256 + unat b) * 4"
  have "decode_sextets (sextets_of [a, b]) = [char_of (?n div 4 div 256), char_of (?n div 4 mod 256)]"
    by (simp only: sextets_of.simps decode_sextets.simps Let_def regroup3)
  also have "\<dots> = [char_of (unat a), char_of (unat b)]"
    by (simp only: bytes2 [OF unat_byte unat_byte])
  finally show ?case by simp
next
  case (3 a)
  have "decode_sextets (sextets_of [a]) = [char_of (unat a * 16 div 16)]"
    by (simp only: sextets_of.simps decode_sextets.simps Let_def regroup2)
  then show ?case by simp
next
  case 4
  show ?case by simp
qed

lemma remove_padding_none:
  assumes "CHR ''='' \<notin> set xs"
  shows "remove_padding xs = xs"
proof -
  have "drop k xs \<noteq> ''==''" and "drop k xs \<noteq> ''=''" for k
    using assms set_drop_subset [of k xs] by (metis list.set_intros(1) subsetD)+
  then show ?thesis by (simp add: remove_padding_def)
qed

lemma remove_padding_one:
  assumes "CHR ''='' \<notin> set xs" "length xs mod 4 = 3"
  shows "remove_padding (xs @ ''='') = xs"
proof -
  from assms(2) have "xs \<noteq> []" by auto
  then obtain ys y where xs: "xs = ys @ [y]"
    by (meson rev_exhaust)
  with assms(1) have y: "y \<noteq> CHR ''=''" by auto
  have len: "length (xs @ ''='') mod 4 = 0"
    using assms(2) by (simp add: mod_Suc)
  have "drop (length (xs @ ''='') - 2) (xs @ ''='') = [y, CHR ''='']"
    by (simp add: xs)
  with y have two: "drop (length (xs @ ''='') - 2) (xs @ ''='') \<noteq> ''==''"
    by simp
  have one: "drop (length (xs @ ''='') - 1) (xs @ ''='') = ''=''"
    by simp
  have t: "take (length (xs @ ''='') - 1) (xs @ ''='') = xs"
    by simp
  show ?thesis
    unfolding remove_padding_def using len two one t by simp
qed

lemma remove_padding_two:
  assumes "length xs mod 4 = 2"
  shows "remove_padding (xs @ ''=='') = xs"
proof -
  have len: "length (xs @ ''=='') mod 4 = 0"
    using assms by (simp add: mod_Suc)
  have two: "drop (length (xs @ ''=='') - 2) (xs @ ''=='') = ''==''"
    by simp
  have t: "take (length (xs @ ''=='') - 2) (xs @ ''=='') = xs"
    by simp
  show ?thesis
    unfolding remove_padding_def using len two t by simp
qed

lemma fill_bytes_from:
  "length bytes = length s \<Longrightarrow> i \<le> length s \<Longrightarrow>
     fill_bytes i s bytes = take i bytes @ map (\<lambda>c. of_nat (of_char c)) (drop i s)"
proof (induction i s bytes rule: fill_bytes.induct)
  case (1 i s bytes)
  show ?case
  proof (cases "i < length s")
    case True
    let ?v = "of_nat (of_char (s ! i)) :: 8 word"
    have "fill_bytes i s bytes = fill_bytes (i + 1) s (bytes[i := ?v])"
      using True by (subst fill_bytes.simps) simp
    also have "\<dots> = take (i + 1) (bytes[i := ?v]) @ map (\<lambda>c. of_nat (of_char c)) (drop (i + 1) s)"
      using "1.IH" [OF True] "1.prems" True by simp
    also have "take (i + 1) (bytes[i := ?v]) = take i bytes @ [?v]"
      using True "1.prems"(1) by (simp add: take_Suc_conv_app_nth)
    also have "(take i bytes @ [?v]) @ map (\<lambda>c. of_nat (of_char c)) (drop (i + 1) s)
                 = take i bytes @ map (\<lambda>c. of_nat (of_char c)) (drop i s)"
      using True by (simp add: Cons_nth_drop_Suc [symmetric])
    finally show ?thesis .
  next
    case False
    with "1.prems" have "i = length s" by simp
    moreover have "fill_bytes i s bytes = bytes"
      using False by (subst fill_bytes.simps) simp
    ultimately show ?thesis using "1.prems"(1) by simp
  qed
qed

lemma fill_bytes_all:
  "fill_bytes 0 s (replicate (length s) 0) = map (\<lambda>c. of_nat (of_char c)) s"
  using fill_bytes_from [of "replicate (length s) 0" s 0] by simp

lemma encoded_chars: "set (map (\<lambda>v. alphabet ! v) (sextets_of bs)) \<subseteq> set alphabet"
  using sextets_of_bound nth_alphabet_in by auto

lemma padding_chars: "set (padding_of bs) \<subseteq> {CHR ''=''}"
  using encode_shape [of bs] by auto

lemma encode_no_whitespace:
  "filter (\<lambda>c. \<not> is_ascii_whitespace c) (reference_encode bs) = reference_encode bs"
proof -
  have "\<not> is_ascii_whitespace c" if "c \<in> set (reference_encode bs)" for c
    using that encoded_chars [of bs] padding_chars [of bs]
    by (auto simp: encode_eq alphabet_no_whitespace eq_no_whitespace simp del: set_map)
  then show ?thesis by (simp add: filter_id_conv)
qed

lemma encode_remove_padding:
  "remove_padding (reference_encode bs) = map (\<lambda>v. alphabet ! v) (sextets_of bs)"
proof -
  let ?xs = "map (\<lambda>v. alphabet ! v) (sextets_of bs)"
  have no_eq: "CHR ''='' \<notin> set ?xs"
    using encoded_chars [of bs] eq_not_in_alphabet by blast
  have len: "length ?xs = length (sextets_of bs)" by simp
  from encode_shape [of bs] show ?thesis
  proof (elim disjE conjE)
    assume "padding_of bs = []"
    then show ?thesis
      using remove_padding_none [OF no_eq] by (simp only: encode_eq append_Nil2)
  next
    assume "padding_of bs = ''=''" "length (sextets_of bs) mod 4 = 3"
    then show ?thesis
      using remove_padding_one [OF no_eq] by (simp only: encode_eq len)
  next
    assume "padding_of bs = ''==''" "length (sextets_of bs) mod 4 = 2"
    then show ?thesis
      using remove_padding_two [of ?xs] by (simp only: encode_eq len)
  qed
qed

lemma atob_reference_encode:
  "atob (reference_encode bs) = Inr (map (\<lambda>b. char_of (unat b)) bs)"
proof -
  let ?xs = "map (\<lambda>v. alphabet ! v) (sextets_of bs)"
  have d: "remove_padding (filter (\<lambda>c. \<not> is_ascii_whitespace c) (reference_encode bs)) = ?xs"
    by (simp only: encode_no_whitespace encode_remove_padding)
  have l: "length ?xs mod 4 \<noteq> 1"
    using encode_shape [of bs] by auto
  have a: "list_all (\<lambda>c. c \<in> set alphabet) ?xs"
    using encoded_chars [of bs] by (auto simp: list_all_iff simp del: set_map)
  have "map sextet_value ?xs = map (\<lambda>v. v) (sextets_of bs)"
    unfolding map_map by (rule map_cong) (simp_all add: sextet_value_alphabet sextets_of_bound)
  then have v: "map sextet_value ?xs = sextets_of bs" by simp
  show ?thesis
    unfolding atob_def d Let_def using l a by (simp only: v decode_sextets_of if_False not_True_eq_False not_not if_True simp_thms)
qed

lemma byte_of_char: "(of_nat (of_char (char_of (unat b))) :: 8 word) = b"
  by (simp add: unat_byte)

lemma strip_prefix_append: "strip_prefix p (p @ s) = Some s"
  by (simp add: strip_prefix_def)

lemma remove_prefix_recognized:
  assumes "ty \<noteq> []" "list_all is_word_char ty"
  shows "remove_data_url_prefix (''data:image/'' @ ty @ '';base64,'' @ rest) = rest"
proof -
  have semi: "\<not> is_word_char (CHR '';'')" by (simp add: is_word_char_def)
  have tw: "takeWhile is_word_char (ty @ '';base64,'' @ rest) = ty"
    using assms(2) semi by (simp add: takeWhile_append2 list_all_iff)
  have dw: "dropWhile is_word_char (ty @ '';base64,'' @ rest) = '';base64,'' @ rest"
    using assms(2) semi by (simp add: dropWhile_append2 list_all_iff)
  show ?thesis
    unfolding remove_data_url_prefix_def strip_prefix_append option.case tw dw
    using assms(1) by simp
qed

lemma remove_prefix_encoded: "remove_data_url_prefix (reference_encode bs) = reference_encode bs"
proof -
  have no_colon: "CHR '':'' \<notin> set (reference_encode bs)"
    using encoded_chars [of bs] padding_chars [of bs] colon_not_in_alphabet
    by (auto simp: encode_eq simp del: set_map)
  have "take k (reference_encode bs) \<noteq> ''data:image/''" for k
  proof
    assume t: "take k (reference_encode bs) = ''data:image/''"
    have "CHR '':'' \<in> set (take k (reference_encode bs))"
      by (simp only: t) simp
    with no_colon set_take_subset [of k "reference_encode bs"] show False
      by blast
  qed
  then have "strip_prefix ''data:image/'' (reference_encode bs) = None"
    by (simp only: strip_prefix_def if_False)
  then show ?thesis
    by (simp only: remove_data_url_prefix_def option.case)
qed

text \<open>
  C8. For every byte sequence \<open>bs\<close>, \<open>base64ToFile\<close> applied to the reference encoding
  of \<open>bs\<close> returns a file whose bytes are exactly \<open>bs\<close>, with content type
  \<^verbatim>\<open>image/png\<close> and the given (or the default) name; and the same holds when the encoding
  is preceded by \<^verbatim>\<open>data:image/<type>;base64,\<close> with a type made of one or more word
  characters, the prefix being stripped.
\<close>

theorem base64ToFile_round_trip:
  "base64ToFile (reference_encode bs) filename
     = Inr \<lparr> file_bytes = bs,
             file_name = (case filename of None \<Rightarrow> ''generated-image.png'' | Some f \<Rightarrow> f),
             file_type = ''image/png'' \<rparr>
   \<and> (ty \<noteq> [] \<and> list_all is_word_char ty \<longrightarrow>
        base64ToFile (''data:image/'' @ ty @ '';base64,'' @ reference_encode bs) filename
          = Inr \<lparr> file_bytes = bs,
                  file_name = (case filename of None \<Rightarrow> ''generated-image.png'' | Some f \<Rightarrow> f),
                  file_type = ''image/png'' \<rparr>)"
proof -
  have bytes: "fill_bytes 0 (map (\<lambda>b. char_of (unat b)) bs)
                 (replicate (length (map (\<lambda>b. char_of (unat b)) bs)) 0) = bs"
    unfolding fill_bytes_all map_map comp_def byte_of_char by simp
  have plain: "base64ToFile (reference_encode bs) filename
     = Inr \<lparr> file_bytes = bs,
             file_name = (case filename of None \<Rightarrow> ''generated-image.png'' | Some f \<Rightarrow> f),
             file_type = ''image/png'' \<rparr>"
    unfolding base64ToFile_def Let_def remove_prefix_encoded atob_reference_encode sum.case bytes ..
  have "base64ToFile (''data:image/'' @ ty @ '';base64,'' @ reference_encode bs) filename
          = Inr \<lparr> file_bytes = bs,
                  file_name = (case filename of None \<Rightarrow> ''generated-image.png'' | Some f \<Rightarrow> f),
                  file_type = ''image/png'' \<rparr>"
    if "ty \<noteq> []" "list_all is_word_char ty"
    unfolding base64ToFile_def Let_def remove_prefix_recognized [OF that] atob_reference_encode
      sum.case bytes ..
  with plain show ?thesis by blast
qed

theorem base64ToFile_round_trip_witness:
  "''png'' \<noteq> [] \<and> list_all is_word_char ''png'' \<and> reference_encode [77, 97, 110] = ''TWFu''
   \<and> base64ToFile ''data:image/png;base64,TWFu'' None
       = Inr \<lparr> file_bytes = [77, 97, 110], file_name = ''generated-image.png'',
               file_type = ''image/png'' \<rparr>"
proof -
  have w: "list_all is_word_char ''png''" by (simp add: is_word_char_def)
  have e: "reference_encode [77, 97, 110] = ''TWFu''" by (simp add: alphabet_def)
  from base64ToFile_round_trip [of "[77, 97, 110]" None "''png''"] w e show ?thesis
    by simp
qed

end
